theory Spec2Isabelle
  imports Main "HOL-Library.Log_Nat"
begin

section \<open>Export KAnim: the frame loop and the index writer\<close>

text \<open>
  The add-on \<^verbatim>\<open>export_kanim.py\<close> writes one \<^verbatim>\<open>.kanim\<close> index file and asks the
  host's X3D exporter for one model file per exported frame. The model below follows
  \<^verbatim>\<open>ExportKAnim.output_frame\<close> and \<^verbatim>\<open>ExportKAnim.execute\<close> statement by statement.
  Python integers are \<^typ>\<open>int\<close>, strings are \<^typ>\<open>string\<close>, exceptions are values.
\<close>

subsection \<open>Library functions the operator calls\<close>

text \<open>
  \<^verbatim>\<open>"%04d" % frame\<close>: the decimal digits of the absolute value, padded with zeros to a
  minimum field width of four, a minus sign counting as one column of the field.
  The width is a minimum: longer numbers are printed in full.
\<close>

definition digit_char :: "nat \<Rightarrow> char" where
  "digit_char d = char_of (48 + d)"

fun digits :: "nat \<Rightarrow> string" where
  "digits n = (if n < 10 then [digit_char n] else digits (n div 10) @ [digit_char (n mod 10)])"

declare digits.simps [simp del]

definition zfill :: "nat \<Rightarrow> string \<Rightarrow> string" where
  "zfill width s = replicate (width - length s) (CHR ''0'') @ s"

definition fmt_04d :: "int \<Rightarrow> string" where
  "fmt_04d n = (if n < 0 then CHR ''-'' # zfill 3 (digits (nat (- n))) else zfill 4 (digits (nat n)))"

text \<open>
  \<^verbatim>\<open>str.rfind\<close> for a single character: the highest index holding it, or \<open>-1\<close>.
\<close>

fun rfind :: "string \<Rightarrow> char \<Rightarrow> int" where
  "rfind [] c = - 1"
| "rfind (x # xs) c =
     (let r = rfind xs c in if 0 \<le> r then r + 1 else if x = c then 0 else - 1)"

text \<open>\<^verbatim>\<open>str.rstrip('/')\<close>.\<close>

definition rstrip_sep :: "string \<Rightarrow> string" where
  "rstrip_sep s = rev (dropWhile (\<lambda>c. c = CHR ''/'') (rev s))"

text \<open>
  \<^verbatim>\<open>os.path.split\<close>, \<^verbatim>\<open>os.path.splitext\<close> and \<^verbatim>\<open>os.path.join\<close> (of two parts) as
  \<^verbatim>\<open>posixpath\<close> defines them.
\<close>

definition path_split :: "string \<Rightarrow> string \<times> string" where
  "path_split p =
     (let i = nat (rfind p (CHR ''/'') + 1);
          head = take i p;
          tail = drop i p
      in (if head \<noteq> [] \<and> head \<noteq> replicate (length head) (CHR ''/'') then rstrip_sep head else head,
          tail))"

function leading_dots_only :: "string \<Rightarrow> int \<Rightarrow> int \<Rightarrow> bool" where
  "leading_dots_only p filenameIndex dotIndex =
     (if filenameIndex < dotIndex then
        (if 0 \<le> filenameIndex \<and> p ! nat filenameIndex \<noteq> CHR ''.'' then False
         else leading_dots_only p (filenameIndex + 1) dotIndex)
      else True)"
  by pat_completeness auto
termination
  by (relation "measure (\<lambda>(p, i, d). nat (d - i))") auto

declare leading_dots_only.simps [simp del]

definition splitext :: "string \<Rightarrow> string \<times> string" where
  "splitext p =
     (let sepIndex = rfind p (CHR ''/'');
          dotIndex = rfind p (CHR ''.'')
      in if sepIndex < dotIndex \<and> \<not> leading_dots_only p (sepIndex + 1) dotIndex
         then (take (nat dotIndex) p, drop (nat dotIndex) p)
         else (p, []))"

definition path_join :: "string \<Rightarrow> string \<Rightarrow> string" where
  "path_join a b =
     (if b \<noteq> [] \<and> hd b = CHR ''/'' then b
      else if a = [] \<or> last a = CHR ''/'' then a @ b
      else a @ ''/'' @ b)"

subsection \<open>Floating point: true division by 25.0 and the conversion \<^verbatim>\<open>%f\<close>\<close>

text \<open>
  A binary64 value is modelled by the rational number it denotes. \<open>to_binary64\<close> rounds
  a rational to the nearest number with a 53-bit significand, ties to even, as IEEE 754
  division and Python's int-to-float conversion do in the normal range. The quotients
  of this program are zero or at least \<open>1/25\<close> in magnitude, far above the subnormal
  range; the overflow of the conversion is the \<open>OverflowError\<close> branch of \<open>truediv_25\<close>.
\<close>

datatype exn = OverflowError | OSError string | RuntimeError string

definition round_half_even :: "rat \<Rightarrow> int" where
  "round_half_even x =
     (let f = \<lfloor>x\<rfloor>; r = x - of_int f
      in if r < 1 / 2 then f else if 1 / 2 < r then f + 1 else if even f then f else f + 1)"

definition binary_exponent :: "rat \<Rightarrow> int" where
  "binary_exponent x =
     (let e = bitlen (fst (quotient_of \<bar>x\<bar>)) - bitlen (snd (quotient_of \<bar>x\<bar>))
      in if 2 powi e \<le> \<bar>x\<bar> then e else e - 1)"

definition to_binary64 :: "rat \<Rightarrow> rat" where
  "to_binary64 x =
     (if x = 0 then 0
      else of_int (round_half_even (x / 2 powi (binary_exponent x - 52)))
             * 2 powi (binary_exponent x - 52))"

text \<open>
  \<^verbatim>\<open>n / 25.0\<close> for a Python integer \<open>n\<close>: the integer is converted to a float (an
  integer that rounds to \<open>2^1024\<close> or beyond raises \<^verbatim>\<open>OverflowError\<close>), then divided.
\<close>

definition truediv_25 :: "int \<Rightarrow> exn + rat" where
  "truediv_25 n =
     (if \<bar>to_binary64 (of_int n)\<bar> < 2 ^ 1024 then Inr (to_binary64 (to_binary64 (of_int n) / 25))
      else Inl OverflowError)"

text \<open>
  \<^verbatim>\<open>"%f" % x\<close>: the value rounded to six decimals (correctly, ties to even), printed with
  a sign if negative, the integer part, a point and exactly six fraction digits.
\<close>

definition format_f :: "rat \<Rightarrow> string" where
  "format_f x =
     (let m = nat (round_half_even (\<bar>x\<bar> * 1000000))
      in (if x < 0 then ''-'' else []) @ digits (m div 1000000) @ ''.''
           @ zfill 6 (digits (m mod 1000000)))"

text \<open>The \<^verbatim>\<open>time\<close> attribute of a frame \<open>n\<close> frames after the start, when no error is raised.\<close>

definition time_attr :: "int \<Rightarrow> string" where
  "time_attr n = format_f (to_binary64 (to_binary64 (of_int n) / 25))"

subsection \<open>The operator, the scene and the files\<close>

record operator =
  filepath :: string
  frame_skip :: int

record scene_t =
  frame_start :: int
  frame_end :: int
  frame_current :: int

text \<open>
  What a run can change: the scene, the text handle \<^verbatim>\<open>kanim_file\<close> (the arguments of
  its \<^verbatim>\<open>write\<close> calls in order, and whether it is open), and the model files the
  host exporter has produced (path and the frame the scene showed).
\<close>

record world =
  scene :: scene_t
  kanim_written :: "string list"
  kanim_open :: bool
  x3d_files :: "(string \<times> int) list"

text \<open>
  The host is a collaborator outside this code: whether \<^verbatim>\<open>open\<close> raises for a path,
  and whether \<^verbatim>\<open>bpy.ops.export_scene.x3d\<close> raises for a path in a given world.
\<close>

record host =
  open_raises :: "string \<Rightarrow> exn option"
  x3d_raises :: "world \<Rightarrow> string \<Rightarrow> exn option"


definition py_open :: "host \<Rightarrow> string \<Rightarrow> world \<Rightarrow> (exn \<times> world) + world" where
  "py_open h path w =
     (case open_raises h path of
        Some e \<Rightarrow> Inl (e, w)
      | None \<Rightarrow> Inr (w\<lparr>kanim_written := [], kanim_open := True\<rparr>))"

definition kanim_write :: "string \<Rightarrow> world \<Rightarrow> world" where
  "kanim_write s w = w\<lparr>kanim_written := kanim_written w @ [s]\<rparr>"

definition kanim_close :: "world \<Rightarrow> world" where
  "kanim_close w = w\<lparr>kanim_open := False\<rparr>"

definition frame_set :: "int \<Rightarrow> world \<Rightarrow> world" where
  "frame_set frame w = w\<lparr>scene := (scene w)\<lparr>frame_current := frame\<rparr>\<rparr>"

definition export_scene_x3d :: "host \<Rightarrow> string \<Rightarrow> world \<Rightarrow> (exn \<times> world) + world" where
  "export_scene_x3d h path w =
     (case x3d_raises h w path of
        Some e \<Rightarrow> Inl (e, w)
      | None \<Rightarrow> Inr (w\<lparr>x3d_files := x3d_files w @ [(path, frame_current (scene w))]\<rparr>))"

subsection \<open>\<^verbatim>\<open>output_frame\<close>\<close>

definition output_dir :: "operator \<Rightarrow> string" where
  "output_dir self = fst (path_split (filepath self))"

definition output_basename :: "operator \<Rightarrow> int \<Rightarrow> string" where
  "output_basename self frame =
     fst (splitext (snd (path_split (filepath self)))) @ fmt_04d frame @ ''.x3d''"

definition frame_line :: "string \<Rightarrow> string \<Rightarrow> string" where
  \<open>frame_line name t = ''  <frame file_name="'' @ name @ ''" time="'' @ t @ ''" />\<newline>''\<close>

definition output_frame ::
  "host \<Rightarrow> operator \<Rightarrow> world \<Rightarrow> int \<Rightarrow> int \<Rightarrow> (exn \<times> world) + world" where
  "output_frame h self w frame frame_start' =
     (case truediv_25 (frame - frame_start') of
        Inl e \<Rightarrow> Inl (e, w)
      | Inr t \<Rightarrow>
          export_scene_x3d h (path_join (output_dir self) (output_basename self frame))
            (frame_set frame
              (kanim_write (frame_line (output_basename self frame) (format_f t)) w)))"

subsection \<open>\<^verbatim>\<open>execute\<close>\<close>

text \<open>
  The \<^verbatim>\<open>while\<close> loop. It need not end (a negative \<^verbatim>\<open>frame_skip\<close> can keep \<open>frame\<close>
  below \<open>frame_end\<close> for ever), so not returning is the value \<open>None\<close>.
\<close>

partial_function (option) frame_loop ::
  "host \<Rightarrow> operator \<Rightarrow> int \<Rightarrow> world \<Rightarrow> ((exn \<times> world) + world) option" where
  "frame_loop h self frame w =
     (if frame < frame_end (scene w) then
        (case output_frame h self w frame (frame_start (scene w)) of
           Inl err \<Rightarrow> Some (Inl err)
         | Inr w' \<Rightarrow> frame_loop h self (frame + (1 + frame_skip self)) w')
      else Some (Inr w))"

declare frame_loop.simps [code]

datatype finished = FINISHED

definition execute ::
  "host \<Rightarrow> operator \<Rightarrow> world \<Rightarrow> ((exn \<times> world) + (finished \<times> world)) option" where
  \<open>execute h self w =
     (case py_open h (filepath self) w of
        Inl err \<Rightarrow> Some (Inl err)
      | Inr w0 \<Rightarrow>
          (case frame_loop h self (frame_start (scene w0))
                  (kanim_write ''<animation>\<newline>''
                    (kanim_write ''<?xml version="1.0"?>\<newline>'' w0)) of
             None \<Rightarrow> None
           | Some (Inl err) \<Rightarrow> Some (Inl err)
           | Some (Inr w1) \<Rightarrow>
               (case output_frame h self w1 (frame_end (scene w1)) (frame_start (scene w1)) of
                  Inl err \<Rightarrow> Some (Inl err)
                | Inr w2 \<Rightarrow>
                    Some (Inr (FINISHED, kanim_close (kanim_write ''</animation>\<newline>'' w2))))))\<close>

subsection \<open>The frame sequence and the run it drives\<close>

text \<open>
  The frames the loop visits, in closed form: \<open>start\<close>, \<open>start + (skip + 1)\<close>, ... as long
  as they are below \<open>end\<close>. \<open>output_frames\<close> is \<^verbatim>\<open>output_frame\<close> called on a list of
  frames in order, stopping at the first exception. The loop is proved below to be
  \<open>output_frames\<close> on \<open>stride_frames\<close>.
\<close>

definition stride_frames :: "int \<Rightarrow> int \<Rightarrow> int \<Rightarrow> int list" where
  "stride_frames start end skip =
     map (\<lambda>i. start + int i * (skip + 1)) [0..<nat ((end - start + skip) div (skip + 1))]"

definition sampled_frames :: "int \<Rightarrow> int \<Rightarrow> int \<Rightarrow> int list" where
  "sampled_frames start end skip = stride_frames start end skip @ [end]"

fun output_frames ::
  "host \<Rightarrow> operator \<Rightarrow> int \<Rightarrow> int list \<Rightarrow> world \<Rightarrow> (exn \<times> world) + world" where
  "output_frames h self s [] w = Inr w"
| "output_frames h self s (f # fs) w =
     (case output_frame h self w f s of
        Inl err \<Rightarrow> Inl err
      | Inr w' \<Rightarrow> output_frames h self s fs w')"

text \<open>The index line of a frame, and the path handed to the host exporter.\<close>

definition index_line :: "operator \<Rightarrow> int \<Rightarrow> int \<Rightarrow> string" where
  "index_line self s f = frame_line (output_basename self f) (time_attr (f - s))"

definition x3d_path :: "operator \<Rightarrow> int \<Rightarrow> string" where
  "x3d_path self f = path_join (output_dir self) (output_basename self f)"

text \<open>
  What a run that finished exported: the frames of the model files it added, in order.
\<close>

definition exported_frames :: "host \<Rightarrow> operator \<Rightarrow> world \<Rightarrow> int list option" where
  "exported_frames h self w =
     (case execute h self w of
        Some (Inr (r, w')) \<Rightarrow> Some (map snd (drop (length (x3d_files w)) (x3d_files w')))
      | _ \<Rightarrow> None)"

text \<open>
  The world in which the host exporter is called for the \<open>k\<close>-th frame of \<open>fs\<close>, when
  the calls before it returned: the line of that frame is written, the scene shows it.
\<close>

definition world_at :: "operator \<Rightarrow> int \<Rightarrow> int list \<Rightarrow> world \<Rightarrow> nat \<Rightarrow> world" where
  "world_at self s fs w k =
     w\<lparr>scene := (scene w)\<lparr>frame_current := fs ! k\<rparr>,
       kanim_written := kanim_written w @ map (index_line self s) (take (Suc k) fs),
       x3d_files := x3d_files w @ map (\<lambda>f. (x3d_path self f, f)) (take k fs)\<rparr>"

text \<open>The world after \<^verbatim>\<open>open\<close> and the two header writes, where the loop starts.\<close>

definition header_written :: "world \<Rightarrow> world" where
  \<open>header_written w =
     w\<lparr>kanim_written := [''<?xml version="1.0"?>\<newline>'', ''<animation>\<newline>''], kanim_open := True\<rparr>\<close>

text \<open>The world a run that finished leaves, given the frames it exported.\<close>

definition finished_world :: "operator \<Rightarrow> int list \<Rightarrow> world \<Rightarrow> world" where
  \<open>finished_world self fs w =
     w\<lparr>scene := (scene w)\<lparr>frame_current := frame_end (scene w)\<rparr>,
       kanim_written :=
         [''<?xml version="1.0"?>\<newline>'', ''<animation>\<newline>'']
           @ map (index_line self (frame_start (scene w))) fs @ [''</animation>\<newline>''],
       kanim_open := False,
       x3d_files := x3d_files w @ map (\<lambda>f. (x3d_path self f, f)) fs\<rparr>\<close>

text \<open>Reading a string of decimal digits back, to tell the texts of two numbers apart.\<close>

definition digit_value :: "char \<Rightarrow> nat" where
  "digit_value c = of_char c - 48"

definition decimal_value :: "string \<Rightarrow> nat" where
  "decimal_value s = foldl (\<lambda>a c. 10 * a + digit_value c) 0 s"

subsection \<open>Example inputs\<close>

text \<open>
  A host in which nothing fails; a host whose exporter raises \<open>err\<close> when the scene shows
  frame \<open>F\<close>; an operator with the default skip; a fresh world with a given frame range.
\<close>

definition quiet_host :: host where
  "quiet_host = \<lparr>open_raises = (\<lambda>p. None), x3d_raises = (\<lambda>w p. None)\<rparr>"

definition failing_host :: "int \<Rightarrow> exn \<Rightarrow> host" where
  "failing_host F err =
     \<lparr>open_raises = (\<lambda>p. None),
      x3d_raises = (\<lambda>w p. if frame_current (scene w) = F then Some err else None)\<rparr>"

definition walk_operator :: operator where
  "walk_operator = \<lparr>filepath = ''/tmp/walk.kanim'', frame_skip = 4\<rparr>"

definition fresh_world :: "int \<Rightarrow> int \<Rightarrow> world" where
  "fresh_world start end =
     \<lparr>scene = \<lparr>frame_start = start, frame_end = end, frame_current = 1\<rparr>,
      kanim_written = [], kanim_open = False, x3d_files = []\<rparr>"

section \<open>Auxiliary facts\<close>

subsection \<open>Rounding\<close>

lemma round_half_even_int: "round_half_even (of_int k) = k"
  by (simp add: round_half_even_def)

lemma round_half_even_near:
  assumes "\<bar>x - of_int k\<bar> < 1 / 2"
  shows "round_half_even x = k"
proof -
  have "\<lfloor>x\<rfloor> = k \<or> \<lfloor>x\<rfloor> = k - 1" using assms by linarith
  then show ?thesis
  proof
    assume f: "\<lfloor>x\<rfloor> = k"
    then have "x - of_int k < 1 / 2" using assms by linarith
    with f show ?thesis by (simp add: round_half_even_def Let_def)
  next
    assume f: "\<lfloor>x\<rfloor> = k - 1"
    have "1 / 2 < x - of_int (k - 1)" using assms by (simp only: of_int_diff of_int_1)
    with f show ?thesis by (simp add: round_half_even_def Let_def)
  qed
qed

lemma round_half_even_error: "\<bar>of_int (round_half_even x) - x\<bar> \<le> 1 / 2"
proof -
  have fl: "of_int \<lfloor>x\<rfloor> \<le> x" "x < of_int \<lfloor>x\<rfloor> + 1" by linarith+
  consider "x - of_int \<lfloor>x\<rfloor> < 1 / 2" | "1 / 2 < x - of_int \<lfloor>x\<rfloor>" | "x - of_int \<lfloor>x\<rfloor> = 1 / 2"
    by linarith
  then show ?thesis
  proof cases
    case 1
    then have "round_half_even x = \<lfloor>x\<rfloor>" by (simp add: round_half_even_def Let_def)
    with 1 fl show ?thesis by linarith
  next
    case 2
    then have "round_half_even x = \<lfloor>x\<rfloor> + 1" by (simp add: round_half_even_def Let_def)
    with 2 fl show ?thesis by (simp only: of_int_add of_int_1)
  next
    case 3
    then have "round_half_even x = \<lfloor>x\<rfloor> \<or> round_half_even x = \<lfloor>x\<rfloor> + 1"
      by (simp add: round_half_even_def Let_def)
    with 3 fl show ?thesis by (auto simp only: of_int_add of_int_1)
  qed
qed

lemma bitlen_rat_bounds:
  assumes "0 < a"
  shows "(2::rat) powi (bitlen a - 1) \<le> of_int a" and "of_int a < (2::rat) powi bitlen a"
proof -
  have l: "1 \<le> bitlen a"
    using assms bitlen_eq_zero_iff [of a] bitlen_nonneg [of a] by linarith
  from bitlen_bounds [OF assms]
  have "(2::int) ^ nat (bitlen a - 1) \<le> a" and "a < (2::int) ^ nat (bitlen a)" by simp_all
  then have "(of_int ((2::int) ^ nat (bitlen a - 1)) :: rat) \<le> of_int a"
    and "(of_int a :: rat) < of_int ((2::int) ^ nat (bitlen a))"
    by (simp_all only: of_int_le_iff of_int_less_iff)
  with l show "(2::rat) powi (bitlen a - 1) \<le> of_int a" and "of_int a < (2::rat) powi bitlen a"
    by (simp_all add: power_int_nonneg_exp)
qed

lemma binary_exponent_bounds:
  assumes "x \<noteq> 0"
  shows "2 powi binary_exponent x \<le> \<bar>x\<bar>" and "\<bar>x\<bar> < 2 powi (binary_exponent x + 1)"
proof -
  obtain a b where q: "quotient_of \<bar>x\<bar> = (a, b)" by (cases "quotient_of \<bar>x\<bar>")
  then have b: "0 < b" and x: "\<bar>x\<bar> = of_int a / of_int b"
    by (auto dest: quotient_of_denom_pos quotient_of_div)
  have "0 < \<bar>x\<bar>" using assms by simp
  then have a: "0 < a" unfolding x using b by (simp add: zero_less_divide_iff)
  define e where "e = bitlen a - bitlen b"
  have be: "binary_exponent x = (if 2 powi e \<le> \<bar>x\<bar> then e else e - 1)"
    by (simp add: binary_exponent_def q e_def Let_def)
  have "of_int a / of_int b < (2::rat) powi bitlen a / 2 powi (bitlen b - 1)"
    using bitlen_rat_bounds [OF a] bitlen_rat_bounds [OF b] a
    by (intro frac_less) simp_all
  then have up: "\<bar>x\<bar> < 2 powi (e + 1)"
    by (simp add: x e_def power_int_diff power_int_add)
  have "(2::rat) powi (bitlen a - 1) / 2 powi bitlen b \<le> of_int a / of_int b"
    using bitlen_rat_bounds [OF a] bitlen_rat_bounds [OF b] a b
    by (intro frac_le) simp_all
  then have lo: "2 powi (e - 1) \<le> \<bar>x\<bar>"
    by (simp add: x e_def power_int_diff)
  show "2 powi binary_exponent x \<le> \<bar>x\<bar>"
    using lo by (simp add: be)
  show "\<bar>x\<bar> < 2 powi (binary_exponent x + 1)"
    using up by (simp add: be not_le)
qed

lemma to_binary64_error:
  assumes "x \<noteq> 0"
  shows "\<bar>to_binary64 x - x\<bar> \<le> 2 powi (binary_exponent x - 53)"
proof -
  define u :: rat where "u = 2 powi (binary_exponent x - 52)"
  define r :: rat where "r = of_int (round_half_even (x / u))"
  have u: "0 < u" by (simp add: u_def)
  have "\<bar>r - x / u\<bar> \<le> 1 / 2"
    unfolding r_def by (rule round_half_even_error)
  then have A: "\<bar>r - x / u\<bar> * u \<le> 1 / 2 * u"
    using u by (intro mult_right_mono) simp_all
  have "(r - x / u) * u = r * u - x"
    using u by (simp add: left_diff_distrib)
  then have B: "\<bar>r - x / u\<bar> * u = \<bar>r * u - x\<bar>"
    using abs_mult_pos [of u "r - x / u"] u by simp
  have C: "1 / 2 * u = 2 powi (binary_exponent x - 53)"
    by (simp add: u_def power_int_diff)
  have D: "to_binary64 x = r * u"
    using assms by (simp add: to_binary64_def u_def r_def)
  show ?thesis
    unfolding D using A B C by linarith
qed

lemma to_binary64_of_int:
  assumes "\<bar>n\<bar> < 2 ^ 53"
  shows "to_binary64 (of_int n) = of_int n"
proof (cases "n = 0")
  case True
  then show ?thesis by (simp add: to_binary64_def)
next
  case False
  define x :: rat where "x = of_int n"
  define e where "e = binary_exponent x"
  have x0: "x \<noteq> 0" using False by (simp add: x_def)
  have "\<bar>x\<bar> < 2 powi 53" using assms unfolding x_def
    by (metis of_int_abs of_int_less_numeral_power_cancel_iff power_int_numeral)
  with binary_exponent_bounds(1) [OF x0] have "(2::rat) powi e < 2 powi 53"
    by (simp add: e_def)
  then have "e < 53"
    by (intro power_int_le_imp_less_exp [of "2::rat"]) simp_all
  then have e: "e \<le> 52" by simp
  define k where "k = nat (52 - e)"
  have p: "(2::rat) powi (e - 52) = 1 / 2 ^ k"
    using e by (simp add: k_def power_int_def field_simps)
  have "x / 2 powi (e - 52) = of_int (n * 2 ^ k)"
    by (simp add: p x_def)
  then have R: "round_half_even (x / 2 powi (e - 52)) = n * 2 ^ k"
    by (simp only: round_half_even_int)
  have "to_binary64 x = of_int (round_half_even (x / 2 powi (e - 52))) * 2 powi (e - 52)"
    using x0 by (simp add: to_binary64_def e_def)
  also have "\<dots> = of_int (n * 2 ^ k) * (1 / 2 ^ k)"
    by (subst R) (simp only: p)
  also have "\<dots> = of_int n" by simp
  finally show ?thesis by (simp add: x_def)
qed

subsection \<open>The loop as a list of frames\<close>

lemma stride_frames_Nil: "e \<le> f \<Longrightarrow> 0 \<le> k \<Longrightarrow> stride_frames f e k = []"
proof -
  assume a: "e \<le> f" "0 \<le> k"
  have "(e - f + k) div (k + 1) \<le> 0"
  proof (cases "0 \<le> e - f + k")
    case True
    with a have "(e - f + k) div (k + 1) = 0" by (intro div_pos_pos_trivial) simp_all
    then show ?thesis by simp
  next
    case False
    with a have "(e - f + k) div (k + 1) < 0" by (intro div_neg_pos_less0) simp_all
    then show ?thesis by simp
  qed
  then show ?thesis by (simp add: stride_frames_def)
qed

lemma stride_frames_Cons:
  assumes "f < e" "0 \<le> k"
  shows "stride_frames f e k = f # stride_frames (f + (1 + k)) e k"
proof -
  define n where "n = nat ((e - (f + (1 + k)) + k) div (k + 1))"
  have "(e - f + k) div (k + 1) = (e - f - 1) div (k + 1) + 1"
    using assms div_add_self2 [of "k + 1" "e - f - 1"] by (simp add: algebra_simps)
  moreover have "0 \<le> (e - f - 1) div (k + 1)"
    using assms by (simp add: pos_imp_zdiv_nonneg_iff)
  ultimately have N: "nat ((e - f + k) div (k + 1)) = Suc n"
    by (simp add: n_def nat_add_distrib algebra_simps)
  have M: "map (\<lambda>i. f + int i * (k + 1)) [0..<Suc n] =
          f # map (\<lambda>i. f + (1 + k) + int i * (k + 1)) [0..<n]"
    by (simp add: upt_conv_Cons map_Suc_upt [symmetric] del: upt_Suc) (simp add: algebra_simps)
  show ?thesis
    using M unfolding stride_frames_def N n_def .
qed

lemma output_frame_Inr:
  assumes "output_frame h self w f s = Inr w'"
  shows "w' = w\<lparr>scene := (scene w)\<lparr>frame_current := f\<rparr>,
               kanim_written := kanim_written w @ [index_line self s f],
               x3d_files := x3d_files w @ [(x3d_path self f, f)]\<rparr>"
  using assms
  by (auto simp: output_frame_def truediv_25_def export_scene_x3d_def frame_set_def
        kanim_write_def index_line_def x3d_path_def time_attr_def
      split: if_splits option.splits)

lemma frame_loop_eq:
  assumes "0 \<le> frame_skip self"
  shows "frame_loop h self f w =
           Some (output_frames h self (frame_start (scene w))
                  (stride_frames f (frame_end (scene w)) (frame_skip self)) w)"
proof (induction "nat (frame_end (scene w) - f)" arbitrary: f w rule: less_induct)
  case less
  show ?case
  proof (cases "f < frame_end (scene w)")
    case False
    then show ?thesis
      using assms by (subst frame_loop.simps) (simp add: stride_frames_Nil)
  next
    case True
    show ?thesis
    proof (cases "output_frame h self w f (frame_start (scene w))")
      case (Inl err)
      with True show ?thesis
        using assms by (subst frame_loop.simps) (simp add: stride_frames_Cons)
    next
      case (Inr w')
      from output_frame_Inr [OF Inr]
      have sc: "frame_end (scene w') = frame_end (scene w)" "frame_start (scene w') = frame_start (scene w)"
        by simp_all
      have "nat (frame_end (scene w') - (f + (1 + frame_skip self))) < nat (frame_end (scene w) - f)"
        using True assms sc by simp
      from less [OF this] Inr True sc show ?thesis
        using assms by (subst frame_loop.simps) (simp add: stride_frames_Cons)
    qed
  qed
qed

lemma stride_frames_bounds:
  assumes "f \<in> set (stride_frames s e k)" "0 \<le> k"
  shows "s \<le> f \<and> f < e"
proof -
  from assms(1) obtain i where i: "i < nat ((e - s + k) div (k + 1))" and f: "f = s + int i * (k + 1)"
    by (auto simp: stride_frames_def)
  from i have "int i + 1 \<le> (e - s + k) div (k + 1)" by simp
  then have "(int i + 1) * (k + 1) \<le> (e - s + k) div (k + 1) * (k + 1)"
    using assms(2) by (intro mult_right_mono) simp_all
  also have "\<dots> = e - s + k - (e - s + k) mod (k + 1)"
    by (simp add: minus_mod_eq_div_mult)
  also have "\<dots> \<le> e - s + k"
    using assms(2) pos_mod_sign [of "k + 1" "e - s + k"] by simp
  finally have "int i * (k + 1) < e - s" by (simp add: algebra_simps)
  moreover have "0 \<le> int i * (k + 1)" using assms(2) by simp
  ultimately show ?thesis by (simp add: f)
qed

lemma output_frames_append:
  "output_frames h self s (xs @ ys) w =
     (case output_frames h self s xs w of
        Inl err \<Rightarrow> Inl err
      | Inr w' \<Rightarrow> output_frames h self s ys w')"
  by (induction xs arbitrary: w) (simp_all split: sum.splits)

lemma output_frames_Inr:
  "output_frames h self s fs w = Inr w' \<Longrightarrow>
     w' = w\<lparr>scene := (scene w)\<lparr>frame_current := last (frame_current (scene w) # fs)\<rparr>,
            kanim_written := kanim_written w @ map (index_line self s) fs,
            x3d_files := x3d_files w @ map (\<lambda>f. (x3d_path self f, f)) fs\<rparr>"
proof (induction fs arbitrary: w)
  case Nil
  then show ?case by simp
next
  case (Cons f fs)
  then obtain w1 where 1: "output_frame h self w f s = Inr w1"
    and 2: "output_frames h self s fs w1 = Inr w'"
    by (auto split: sum.splits)
  show ?case
    unfolding Cons.IH [OF 2] output_frame_Inr [OF 1] by simp
qed

lemma float_of_int_in_range:
  assumes "\<bar>n\<bar> < 2 ^ 53"
  shows "\<bar>to_binary64 (of_int n)\<bar> < 2 ^ 1024"
proof -
  have "\<bar>of_int n :: rat\<bar> < 2 ^ 53"
    using assms by (metis of_int_abs of_int_less_numeral_power_cancel_iff)
  also have "(2::rat) ^ 53 < 2 ^ 1024" by (rule power_strict_increasing) simp_all
  finally show ?thesis
    by (simp only: to_binary64_of_int [OF assms])
qed

lemma output_frame_eq:
  assumes "\<bar>f - s\<bar> < 2 ^ 53"
  shows "output_frame h self w f s =
           export_scene_x3d h (x3d_path self f) (frame_set f (kanim_write (index_line self s f) w))"
  by (simp only: output_frame_def truediv_25_def float_of_int_in_range [OF assms] if_True
        sum.case index_line_def x3d_path_def time_attr_def)

lemma output_frame_ok:
  assumes "\<bar>f - s\<bar> < 2 ^ 53"
    and "x3d_raises h (frame_set f (kanim_write (index_line self s f) w)) (x3d_path self f) = None"
  shows "\<exists>w'. output_frame h self w f s = Inr w'"
  using assms(2) by (simp add: output_frame_eq [OF assms(1)] export_scene_x3d_def)

lemma output_frames_ok:
  assumes "\<forall>f \<in> set fs. \<bar>f - s\<bar> < 2 ^ 53" and "\<forall>w p. x3d_raises h w p = None"
  shows "\<exists>w'. output_frames h self s fs w = Inr w'"
  using assms
proof (induction fs arbitrary: w)
  case Nil
  then show ?case by simp
next
  case (Cons f fs)
  then obtain w1 where "output_frame h self w f s = Inr w1"
    using output_frame_ok [of f s h self w] by auto
  with Cons show ?case by simp
qed

lemma output_frame_Inl:
  assumes "output_frame h self w f s = Inl (e, w')" and "\<bar>f - s\<bar> < 2 ^ 53"
  shows "x3d_raises h w' (x3d_path self f) = Some e \<and>
         w' = w\<lparr>scene := (scene w)\<lparr>frame_current := f\<rparr>,
                kanim_written := kanim_written w @ [index_line self s f]\<rparr>"
  using assms(1) unfolding output_frame_eq [OF assms(2)]
  by (auto simp: export_scene_x3d_def frame_set_def kanim_write_def split: option.splits)

lemma output_frames_Inl:
  assumes "output_frames h self s fs w = Inl (e, w')" and "\<forall>f \<in> set fs. \<bar>f - s\<bar> < 2 ^ 53"
  shows "\<exists>k < length fs.
           x3d_raises h w' (x3d_path self (fs ! k)) = Some e \<and>
           w' = w\<lparr>scene := (scene w)\<lparr>frame_current := fs ! k\<rparr>,
                  kanim_written := kanim_written w @ map (index_line self s) (take (Suc k) fs),
                  x3d_files := x3d_files w @ map (\<lambda>f. (x3d_path self f, f)) (take k fs)\<rparr>"
  using assms
proof (induction fs arbitrary: w)
  case Nil
  then show ?case by simp
next
  case (Cons f fs)
  show ?case
  proof (cases "output_frame h self w f s")
    case (Inl err)
    with Cons.prems have "output_frame h self w f s = Inl (e, w')" by simp
    from output_frame_Inl [OF this] Cons.prems(2)
    have "x3d_raises h w' (x3d_path self ((f # fs) ! 0)) = Some e \<and>
           w' = w\<lparr>scene := (scene w)\<lparr>frame_current := (f # fs) ! 0\<rparr>,
                  kanim_written := kanim_written w @ map (index_line self s) (take (Suc 0) (f # fs)),
                  x3d_files := x3d_files w @ map (\<lambda>f. (x3d_path self f, f)) (take 0 (f # fs))\<rparr>"
      by auto
    then show ?thesis by blast
  next
    case (Inr w1)
    with Cons.prems have "output_frames h self s fs w1 = Inl (e, w')" by simp
    from Cons.IH [OF this] Cons.prems(2)
    obtain k where k: "k < length fs" "x3d_raises h w' (x3d_path self (fs ! k)) = Some e"
      "w' = w1\<lparr>scene := (scene w1)\<lparr>frame_current := fs ! k\<rparr>,
                  kanim_written := kanim_written w1 @ map (index_line self s) (take (Suc k) fs),
                  x3d_files := x3d_files w1 @ map (\<lambda>f. (x3d_path self f, f)) (take k fs)\<rparr>"
      by auto
    have "Suc k < length (f # fs) \<and> x3d_raises h w' (x3d_path self ((f # fs) ! Suc k)) = Some e \<and>
           w' = w\<lparr>scene := (scene w)\<lparr>frame_current := (f # fs) ! Suc k\<rparr>,
                  kanim_written := kanim_written w @ map (index_line self s) (take (Suc (Suc k)) (f # fs)),
                  x3d_files := x3d_files w @ map (\<lambda>f. (x3d_path self f, f)) (take (Suc k) (f # fs))\<rparr>"
      using k unfolding output_frame_Inr [OF Inr] by simp
    then show ?thesis by blast
  qed
qed

lemma execute_eq:
  assumes "0 \<le> frame_skip self"
  shows \<open>execute h self w =
     Some (case py_open h (filepath self) w of
        Inl err \<Rightarrow> Inl err
      | Inr w0 \<Rightarrow>
          (case output_frames h self (frame_start (scene w))
                  (sampled_frames (frame_start (scene w)) (frame_end (scene w)) (frame_skip self))
                  (kanim_write ''<animation>\<newline>''
                    (kanim_write ''<?xml version="1.0"?>\<newline>'' w0)) of
             Inl err \<Rightarrow> Inl err
           | Inr w2 \<Rightarrow> Inr (FINISHED, kanim_close (kanim_write ''</animation>\<newline>'' w2))))\<close>
proof (cases "py_open h (filepath self) w")
  case (Inl err)
  then show ?thesis by (simp add: execute_def)
next
  case (Inr w0)
  then have sc: "scene w0 = scene w"
    by (auto simp: py_open_def split: option.splits)
  define w1 where \<open>w1 = kanim_write ''<animation>\<newline>'' (kanim_write ''<?xml version="1.0"?>\<newline>'' w0)\<close>
  have sc1: "scene w1 = scene w" by (simp add: w1_def kanim_write_def sc)
  show ?thesis
  proof (cases "output_frames h self (frame_start (scene w))
                  (stride_frames (frame_start (scene w)) (frame_end (scene w)) (frame_skip self)) w1")
    case (Inl err)
    then show ?thesis
      using Inr sc sc1 frame_loop_eq [OF assms, of h "frame_start (scene w)" w1]
      by (simp add: execute_def w1_def [symmetric] sampled_frames_def output_frames_append)
  next
    case (Inr w2)
    from output_frames_Inr [OF Inr] have sc2: "frame_start (scene w2) = frame_start (scene w)"
      "frame_end (scene w2) = frame_end (scene w)" by (simp_all add: sc1)
    show ?thesis
      using \<open>py_open h (filepath self) w = Inr w0\<close> Inr sc sc1 sc2 frame_loop_eq [OF assms, of h "frame_start (scene w)" w1]
      by (simp add: execute_def w1_def [symmetric] sampled_frames_def output_frames_append
            split: sum.splits)
  qed
qed

subsection \<open>Whole runs\<close>

lemma sampled_frames_range:
  assumes "0 \<le> k" "\<bar>e - s\<bar> < 2 ^ 53"
  shows "\<forall>f \<in> set (sampled_frames s e k). \<bar>f - s\<bar> < 2 ^ 53"
proof
  fix f assume "f \<in> set (sampled_frames s e k)"
  then consider "f \<in> set (stride_frames s e k)" | "f = e"
    by (auto simp: sampled_frames_def)
  then show "\<bar>f - s\<bar> < 2 ^ 53"
  proof cases
    case 1
    from stride_frames_bounds [OF 1 assms(1)] assms(2) show ?thesis by linarith
  next
    case 2
    with assms(2) show ?thesis by simp
  qed
qed

lemma execute_opened:
  assumes "0 \<le> frame_skip self" "open_raises h (filepath self) = None"
  shows \<open>execute h self w =
     Some (case output_frames h self (frame_start (scene w))
                  (sampled_frames (frame_start (scene w)) (frame_end (scene w)) (frame_skip self))
                  (header_written w) of
             Inl err \<Rightarrow> Inl err
           | Inr w2 \<Rightarrow> Inr (FINISHED, kanim_close (kanim_write ''</animation>\<newline>'' w2)))\<close>
proof -
  have \<open>kanim_write ''<animation>\<newline>'' (kanim_write ''<?xml version="1.0"?>\<newline>''
          (w\<lparr>kanim_written := [], kanim_open := True\<rparr>)) = header_written w\<close>
    by (rule world.equality) (simp_all add: kanim_write_def header_written_def)
  then show ?thesis
    using assms(2) by (simp add: execute_eq [OF assms(1)] py_open_def)
qed

lemma execute_Inr:
  assumes "0 \<le> frame_skip self" "execute h self w = Some (Inr (r, w'))"
  shows "w' = finished_world self
           (sampled_frames (frame_start (scene w)) (frame_end (scene w)) (frame_skip self)) w"
proof -
  define fs where "fs = sampled_frames (frame_start (scene w)) (frame_end (scene w)) (frame_skip self)"
  from assms(2) obtain w0 where 0: "py_open h (filepath self) w = Inr w0"
    unfolding execute_eq [OF assms(1)] by (auto split: sum.splits)
  then have o: "open_raises h (filepath self) = None"
    by (auto simp: py_open_def split: option.splits)
  from assms(2) obtain w2 where 2: "output_frames h self (frame_start (scene w)) fs (header_written w) = Inr w2"
    and w': "w' = kanim_close (kanim_write ''</animation>\<newline>'' w2)"
    unfolding execute_opened [OF assms(1) o] fs_def by (auto split: sum.splits)
  show ?thesis
    unfolding w' output_frames_Inr [OF 2] fs_def [symmetric]
    by (rule world.equality)
      (simp_all add: finished_world_def header_written_def kanim_close_def kanim_write_def
          fs_def sampled_frames_def)
qed

lemma execute_success:
  assumes "0 \<le> frame_skip self"
    and "\<bar>frame_end (scene w) - frame_start (scene w)\<bar> < 2 ^ 53"
    and "open_raises h (filepath self) = None"
    and "\<forall>w p. x3d_raises h w p = None"
  shows "execute h self w = Some (Inr (FINISHED, finished_world self
           (sampled_frames (frame_start (scene w)) (frame_end (scene w)) (frame_skip self)) w))"
proof -
  define fs where "fs = sampled_frames (frame_start (scene w)) (frame_end (scene w)) (frame_skip self)"
  from output_frames_ok [OF sampled_frames_range [OF assms(1,2)] assms(4)]
  obtain w2 where "output_frames h self (frame_start (scene w)) fs (header_written w) = Inr w2"
    unfolding fs_def by blast
  then have "\<exists>w'. execute h self w = Some (Inr (FINISHED, w'))"
    unfolding execute_opened [OF assms(1,3)] fs_def by simp
  then obtain w' where e: "execute h self w = Some (Inr (FINISHED, w'))" ..
  from execute_Inr [OF assms(1) e] e show ?thesis by simp
qed

lemma exported_frames_eq:
  assumes "0 \<le> frame_skip self"
    and "\<bar>frame_end (scene w) - frame_start (scene w)\<bar> < 2 ^ 53"
    and "open_raises h (filepath self) = None"
    and "\<forall>w p. x3d_raises h w p = None"
  shows "exported_frames h self w =
           Some (sampled_frames (frame_start (scene w)) (frame_end (scene w)) (frame_skip self))"
  by (simp add: exported_frames_def execute_success [OF assms] finished_world_def comp_def)

lemma stride_frames_length:
  "length (stride_frames s e k) = nat ((e - s + k) div (k + 1))"
  by (simp add: stride_frames_def)

lemma stride_frames_nth:
  "i < length (stride_frames s e k) \<Longrightarrow> stride_frames s e k ! i = s + int i * (k + 1)"
  by (simp add: stride_frames_def)

lemma stride_frames_sorted:
  assumes "0 \<le> k"
  shows "sorted_wrt (<) (stride_frames s e k)"
  using assms by (simp add: stride_frames_def sorted_wrt_map sorted_wrt_iff_nth_less)

lemma stride_frames_next:
  assumes "0 \<le> k" "s \<le> e"
  shows "e \<le> s + int (length (stride_frames s e k)) * (k + 1)"
proof -
  have q: "0 \<le> (e - s + k) div (k + 1)"
    using assms by (simp add: pos_imp_zdiv_nonneg_iff)
  have "(e - s + k) mod (k + 1) < k + 1"
    using assms(1) by (intro pos_mod_bound) simp
  moreover have "(e - s + k) div (k + 1) * (k + 1) = e - s + k - (e - s + k) mod (k + 1)"
    by (simp add: minus_mod_eq_div_mult)
  ultimately have "e - s \<le> (e - s + k) div (k + 1) * (k + 1)" by linarith
  then show ?thesis using q by (simp add: stride_frames_length)
qed

lemma sampled_frames_hd:
  assumes "0 \<le> k" "s \<le> e"
  shows "hd (sampled_frames s e k) = s"
proof (cases "s < e")
  case True
  then show ?thesis using assms(1) by (simp add: sampled_frames_def stride_frames_Cons)
next
  case False
  with assms have "e = s" by simp
  then show ?thesis using assms(1) by (simp add: sampled_frames_def stride_frames_Nil)
qed

lemma sampled_frames_sorted:
  assumes "0 \<le> k"
  shows "sorted_wrt (<) (sampled_frames s e k)"
  using assms stride_frames_bounds [of _ s e k]
  by (auto simp: sampled_frames_def sorted_wrt_append stride_frames_sorted)

lemma execute_Inl:
  assumes "0 \<le> frame_skip self"
    and "\<bar>frame_end (scene w) - frame_start (scene w)\<bar> < 2 ^ 53"
    and "open_raises h (filepath self) = None"
    and "fs = sampled_frames (frame_start (scene w)) (frame_end (scene w)) (frame_skip self)"
    and "execute h self w = Some (Inl (err, w'))"
  shows "\<exists>k < length fs.
           x3d_raises h w' (x3d_path self (fs ! k)) = Some err \<and>
           w' = world_at self (frame_start (scene w)) fs (header_written w) k"
proof -
  from assms(5) have "output_frames h self (frame_start (scene w)) fs (header_written w) = Inl (err, w')"
    unfolding execute_opened [OF assms(1,3)] assms(4) by (auto split: sum.splits)
  from output_frames_Inl [OF this] sampled_frames_range [OF assms(1,2)]
  show ?thesis unfolding assms(4) world_at_def by blast
qed

lemma world_at_Cons:
  "world_at self s (f # fs) w (Suc i) =
     world_at self s fs
       (w\<lparr>scene := (scene w)\<lparr>frame_current := f\<rparr>,
          kanim_written := kanim_written w @ [index_line self s f],
          x3d_files := x3d_files w @ [(x3d_path self f, f)]\<rparr>) i"
  by (rule world.equality) (simp_all add: world_at_def)

lemma world_at_0:
  "world_at self s (f # fs) w 0 = frame_set f (kanim_write (index_line self s f) w)"
  by (rule world.equality) (simp_all add: world_at_def frame_set_def kanim_write_def)

lemma output_frames_fail_at:
  assumes "k < length fs"
    and "\<forall>f \<in> set fs. \<bar>f - s\<bar> < 2 ^ 53"
    and "\<forall>j < k. x3d_raises h (world_at self s fs w j) (x3d_path self (fs ! j)) = None"
    and "x3d_raises h (world_at self s fs w k) (x3d_path self (fs ! k)) = Some err"
  shows "output_frames h self s fs w = Inl (err, world_at self s fs w k)"
  using assms
proof (induction fs arbitrary: w k)
  case Nil
  then show ?case by simp
next
  case (Cons f fs)
  have r: "\<bar>f - s\<bar> < 2 ^ 53" using Cons.prems(2) by simp
  show ?case
  proof (cases k)
    case 0
    with Cons.prems(4) show ?thesis
      by (simp add: output_frame_eq [OF r] export_scene_x3d_def world_at_0)
  next
    case (Suc i)
    define w1 where "w1 = w\<lparr>scene := (scene w)\<lparr>frame_current := f\<rparr>,
          kanim_written := kanim_written w @ [index_line self s f],
          x3d_files := x3d_files w @ [(x3d_path self f, f)]\<rparr>"
    from Cons.prems(3) Suc have "x3d_raises h (world_at self s (f # fs) w 0) (x3d_path self f) = None"
      by force
    then have "\<exists>w'. output_frame h self w f s = Inr w'"
      by (simp add: output_frame_eq [OF r] export_scene_x3d_def world_at_0)
    then obtain w' where o: "output_frame h self w f s = Inr w'" ..
    from output_frame_Inr [OF o] have w': "w' = w1" by (simp add: w1_def)
    have i: "i < length fs" using Cons.prems(1) Suc by simp
    have rs: "\<forall>f \<in> set fs. \<bar>f - s\<bar> < 2 ^ 53" using Cons.prems(2) by simp
    have n: "\<forall>j < i. x3d_raises h (world_at self s fs w1 j) (x3d_path self (fs ! j)) = None"
    proof (intro allI impI)
      fix j assume "j < i"
      then have "Suc j < k" using Suc by simp
      with Cons.prems(3) have "x3d_raises h (world_at self s (f # fs) w (Suc j)) (x3d_path self ((f # fs) ! Suc j)) = None"
        by blast
      then show "x3d_raises h (world_at self s fs w1 j) (x3d_path self (fs ! j)) = None"
        by (simp add: world_at_Cons w1_def)
    qed
    have e: "x3d_raises h (world_at self s fs w1 i) (x3d_path self (fs ! i)) = Some err"
      using Cons.prems(4) Suc by (simp add: world_at_Cons w1_def)
    from Cons.IH [OF i rs n e] o w' Suc show ?thesis
      by (simp add: world_at_Cons w1_def)
  qed
qed

lemma execute_fails_at:
  assumes "0 \<le> frame_skip self"
    and "\<bar>frame_end (scene w) - frame_start (scene w)\<bar> < 2 ^ 53"
    and "open_raises h (filepath self) = None"
    and "fs = sampled_frames (frame_start (scene w)) (frame_end (scene w)) (frame_skip self)"
    and "k < length fs"
    and "\<forall>j < k. x3d_raises h (world_at self (frame_start (scene w)) fs (header_written w) j)
                    (x3d_path self (fs ! j)) = None"
    and "x3d_raises h (world_at self (frame_start (scene w)) fs (header_written w) k)
           (x3d_path self (fs ! k)) = Some err"
  shows "execute h self w =
           Some (Inl (err, world_at self (frame_start (scene w)) fs (header_written w) k))"
proof -
  have r: "\<forall>f \<in> set fs. \<bar>f - frame_start (scene w)\<bar> < 2 ^ 53"
    unfolding assms(4) by (rule sampled_frames_range [OF assms(1,2)])
  from output_frames_fail_at [OF assms(5) r assms(6,7)]
  show ?thesis
    unfolding execute_opened [OF assms(1,3)] assms(4) [symmetric] by simp
qed

lemma index_line_not_closing: \<open>index_line self s f \<noteq> ''</animation>\<newline>''\<close>
  by (simp add: index_line_def frame_line_def)

lemma concrete_sampled: "sampled_frames 0 12 4 = [0, 5, 10, 12]"
  by (simp add: sampled_frames_def stride_frames_Cons stride_frames_Nil)

lemma distinct_nth_notin_take:
  assumes "distinct xs" "k < length xs"
  shows "xs ! k \<notin> set (take k xs)"
proof
  assume "xs ! k \<in> set (take k xs)"
  then obtain i where "i < k" "xs ! i = xs ! k"
    using assms(2) by (auto simp: in_set_conv_nth)
  with assms show False by (simp add: nth_eq_iff_index_eq)
qed

lemma failing_run:
  "execute (failing_host 5 err) walk_operator (fresh_world 0 12) =
     Some (Inl (err, world_at walk_operator 0 [0, 5, 10, 12] (header_written (fresh_world 0 12)) 1))"
proof -
  have "execute (failing_host 5 err) walk_operator (fresh_world 0 12) =
     Some (Inl (err, world_at walk_operator (frame_start (scene (fresh_world 0 12))) [0, 5, 10, 12]
        (header_written (fresh_world 0 12)) 1))"
    by (rule execute_fails_at)
      (simp_all add: failing_host_def walk_operator_def fresh_world_def concrete_sampled world_at_def)
  then show ?thesis by (simp add: fresh_world_def)
qed

lemma quiet_run:
  "execute quiet_host walk_operator (fresh_world 0 12) =
     Some (Inr (FINISHED, finished_world walk_operator [0, 5, 10, 12] (fresh_world 0 12)))"
  by (simp add: execute_success quiet_host_def walk_operator_def fresh_world_def concrete_sampled)

lemma format_f_eqI:
  assumes "(d < 0) = (x < 0)"
    and "round_half_even (\<bar>d\<bar> * 1000000) = round_half_even (\<bar>x\<bar> * 1000000)"
  shows "format_f d = format_f x"
  using assms by (simp add: format_f_def)

lemma time_attr_exact:
  assumes "\<bar>n\<bar> < 2 ^ 32"
  shows "time_attr n = format_f (of_int n / 25)"
proof (cases "n = 0")
  case True
  then show ?thesis by (simp add: time_attr_def to_binary64_def)
next
  case False
  define x :: rat where "x = of_int n / 25"
  define d where "d = to_binary64 x"
  define e where "e = binary_exponent x"
  have x0: "x \<noteq> 0" using False by (simp add: x_def)
  have n53: "\<bar>n\<bar> < 2 ^ 53" using assms by simp
  have t: "time_attr n = format_f d"
    by (simp only: time_attr_def to_binary64_of_int [OF n53] d_def x_def)
  have "\<bar>of_int n :: rat\<bar> < 2 ^ 32"
    using assms by (metis of_int_abs of_int_less_numeral_power_cancel_iff)
  then have "\<bar>x\<bar> < 2 ^ 32 / 25" by (simp add: x_def)
  also have "\<dots> < 2 powi 28" by simp
  finally have xb: "\<bar>x\<bar> < 2 powi 28" .
  have lo: "2 powi e \<le> \<bar>x\<bar>" unfolding e_def by (rule binary_exponent_bounds(1) [OF x0])
  with xb have "(2::rat) powi e < 2 powi 28" by simp
  then have "e < 28" by (intro power_int_le_imp_less_exp [of "2::rat"]) simp_all
  then have "(2::rat) powi (e - 53) \<le> 2 powi (- 26)"
    by (intro power_int_increasing) simp_all
  moreover have "\<bar>d - x\<bar> \<le> 2 powi (e - 53)"
    unfolding d_def e_def by (rule to_binary64_error [OF x0])
  ultimately have err: "\<bar>d - x\<bar> \<le> 2 powi (- 26)" by simp
  have "(2::rat) powi (e - 53) < 2 powi e" by (intro power_int_strict_increasing) simp_all
  with \<open>\<bar>d - x\<bar> \<le> 2 powi (e - 53)\<close> lo have "\<bar>d - x\<bar> < \<bar>x\<bar>" by simp
  then have sg: "(d < 0) = (x < 0)" by linarith
  define M where "M = \<bar>n\<bar> * 40000"
  have xm: "\<bar>x\<bar> * 1000000 = of_int M" by (simp add: x_def M_def)
  have "(2::rat) powi (- 26) = 1 / 67108864" by (simp add: power_int_minus)
  with err have "\<bar>d - x\<bar> \<le> 1 / 67108864" by simp
  then have "\<bar>\<bar>d\<bar> * 1000000 - \<bar>x\<bar> * 1000000\<bar> < 1 / 2" by linarith
  then have "round_half_even (\<bar>d\<bar> * 1000000) = M"
    unfolding xm by (rule round_half_even_near)
  moreover have "round_half_even (\<bar>x\<bar> * 1000000) = M"
    unfolding xm by (rule round_half_even_int)
  ultimately have "format_f d = format_f x"
    using sg by (intro format_f_eqI) simp_all
  with t show ?thesis by (simp add: x_def)
qed

lemma digits_length_le:
  "0 < k \<Longrightarrow> n < 10 ^ k \<Longrightarrow> length (digits n) \<le> k"
proof (induction k arbitrary: n)
  case 0
  then show ?case by simp
next
  case (Suc k)
  show ?case
  proof (cases "n < 10")
    case True
    then show ?thesis by (subst digits.simps) simp
  next
    case False
    then have "0 < k" using Suc.prems by (cases k) simp_all
    moreover have "n div 10 < 10 ^ k" using Suc.prems by (simp add: less_mult_imp_div_less mult.commute)
    ultimately have "length (digits (n div 10)) \<le> k" by (rule Suc.IH)
    with False show ?thesis by (subst digits.simps) simp
  qed
qed

lemma digits_nonempty: "digits n \<noteq> []"
  by (subst digits.simps) simp

lemma format_f_exact:
  "format_f (of_int n / 25) =
     (if n < 0 then ''-'' else []) @ digits (nat (\<bar>n\<bar> div 25)) @ ''.''
       @ zfill 6 (digits (nat (\<bar>n\<bar> mod 25) * 40000))"
proof -
  define a where "a = nat \<bar>n\<bar>"
  have "\<bar>of_int n / 25 :: rat\<bar> * 1000000 = of_int (\<bar>n\<bar> * 40000)" by simp
  then have r: "round_half_even (\<bar>of_int n / 25 :: rat\<bar> * 1000000) = \<bar>n\<bar> * 40000"
    by (simp only: round_half_even_int)
  have m: "nat (\<bar>n\<bar> * 40000) = a * 40000" by (simp add: a_def nat_mult_distrib)
  have "a = a div 25 * 25 + a mod 25" by simp
  then have "a * 40000 = (a div 25 * 25 + a mod 25) * 40000" by (rule arg_cong)
  then have "a * 40000 = (a div 25) * 1000000 + (a mod 25) * 40000"
    by (simp only: add_mult_distrib mult.assoc)
  moreover have "(a mod 25) * 40000 < 1000000"
    using mod_less_divisor [of 25 a] by simp
  ultimately have dv: "a * 40000 div 1000000 = a div 25" and md: "a * 40000 mod 1000000 = (a mod 25) * 40000"
    by simp_all
  have s: "(of_int n / 25 < (0::rat)) = (n < 0)" by simp
  have a1: "nat (\<bar>n\<bar> div 25) = a div 25" by (simp add: a_def nat_div_distrib)
  have a2: "nat (\<bar>n\<bar> mod 25) = a mod 25" by (simp add: a_def nat_mod_distrib)
  show ?thesis
    unfolding format_f_def Let_def r m dv md s a1 a2 ..
qed

lemma zfill_length: "length s \<le> k \<Longrightarrow> length (zfill k s) = k"
  by (simp add: zfill_def)

lemma fraction_length: "length (zfill 6 (digits (nat (\<bar>n\<bar> mod 25) * 40000))) = 6"
proof -
  have "nat (\<bar>n\<bar> mod 25) < 25" by simp
  then have "nat (\<bar>n\<bar> mod 25) * 40000 < 10 ^ 6" by simp
  then have "length (digits (nat (\<bar>n\<bar> mod 25) * 40000)) \<le> 6"
    by (intro digits_length_le) simp_all
  then show ?thesis by (rule zfill_length)
qed

lemma digits_0: "digits 0 = ''0''"
  by code_simp

lemma zfill_0: "zfill 6 ''0'' = ''000000''"
  by code_simp

lemma time_attr_0: "time_attr 0 = ''0.000000''"
  by (simp add: time_attr_def to_binary64_def format_f_def round_half_even_def digits_0 zfill_0)

lemma digit_value_digit_char: "d < 10 \<Longrightarrow> digit_value (digit_char d) = d"
  by (simp add: digit_value_def digit_char_def)

lemma digit_char_not_minus: "d < 10 \<Longrightarrow> digit_char d \<noteq> CHR ''-''"
proof
  assume d: "d < 10" and "digit_char d = CHR ''-''"
  then have "of_char (digit_char d) = (of_char (CHR ''-'') :: nat)" by simp
  with d show False by (simp add: digit_char_def)
qed

lemma decimal_value_snoc:
  "decimal_value (s @ [c]) = 10 * decimal_value s + digit_value c"
  by (simp add: decimal_value_def)

lemma decimal_value_digits: "decimal_value (digits n) = n"
proof (induction n rule: digits.induct)
  case (1 n)
  show ?case
  proof (cases "n < 10")
    case True
    then show ?thesis
      by (subst digits.simps) (simp add: decimal_value_def digit_value_digit_char)
  next
    case False
    with 1 have "decimal_value (digits (n div 10)) = n div 10" by simp
    with False show ?thesis
      by (subst digits.simps) (simp add: decimal_value_snoc digit_value_digit_char)
  qed
qed

lemma digits_no_minus: "CHR ''-'' \<notin> set (digits n)"
proof (induction n rule: digits.induct)
  case (1 n)
  show ?case
  proof (cases "n < 10")
    case True
    then show ?thesis
      using digit_char_not_minus [of n] by (subst digits.simps) auto
  next
    case False
    with 1 have "CHR ''-'' \<notin> set (digits (n div 10))" by simp
    with False show ?thesis
      using digit_char_not_minus [of "n mod 10"] by (subst digits.simps) auto
  qed
qed

lemma digit_value_0: "digit_value (CHR ''0'') = 0"
  by (simp add: digit_value_def)

lemma decimal_value_zeros:
  "foldl (\<lambda>a c. 10 * a + digit_value c) 0 (replicate k (CHR ''0'')) = 0"
  by (induction k) (simp_all add: digit_value_0)

lemma decimal_value_zfill: "decimal_value (zfill w s) = decimal_value s"
  by (simp add: zfill_def decimal_value_def decimal_value_zeros)

lemma zfill_digits_inj: "zfill w (digits a) = zfill w (digits b) \<Longrightarrow> a = b"
proof -
  assume "zfill w (digits a) = zfill w (digits b)"
  then have "decimal_value (zfill w (digits a)) = decimal_value (zfill w (digits b))" by simp
  then show "a = b" by (simp add: decimal_value_zfill decimal_value_digits)
qed

lemma zfill_digits_no_minus: "CHR ''-'' \<notin> set (zfill w (digits n))"
  using digits_no_minus [of n] by (auto simp: zfill_def)

lemma fmt_04d_inj:
  assumes "fmt_04d f = fmt_04d g"
  shows "f = g"
proof -
  consider "f < 0" "g < 0" | "0 \<le> f" "0 \<le> g" | "f < 0" "0 \<le> g" | "0 \<le> f" "g < 0"
    by linarith
  then show ?thesis
  proof cases
    case 1
    with assms have "zfill 3 (digits (nat (- f))) = zfill 3 (digits (nat (- g)))"
      by (simp add: fmt_04d_def)
    from zfill_digits_inj [OF this] 1 show ?thesis by simp
  next
    case 2
    with assms have "zfill 4 (digits (nat f)) = zfill 4 (digits (nat g))"
      by (simp add: fmt_04d_def)
    from zfill_digits_inj [OF this] 2 show ?thesis by simp
  next
    case 3
    with assms have "CHR ''-'' # zfill 3 (digits (nat (- f))) = zfill 4 (digits (nat g))"
      by (simp add: fmt_04d_def)
    then have "CHR ''-'' \<in> set (zfill 4 (digits (nat g)))"
      by (metis list.set_intros(1))
    with zfill_digits_no_minus show ?thesis by blast
  next
    case 4
    with assms have "zfill 4 (digits (nat f)) = CHR ''-'' # zfill 3 (digits (nat (- g)))"
      by (simp add: fmt_04d_def)
    then have "CHR ''-'' \<in> set (zfill 4 (digits (nat f)))"
      by (metis list.set_intros(1))
    with zfill_digits_no_minus show ?thesis by blast
  qed
qed

lemma output_basename_inj:
  "output_basename self f = output_basename self g \<Longrightarrow> f = g"
  by (rule fmt_04d_inj) (simp add: output_basename_def)

lemma digits_length_gt: "10 ^ k \<le> n \<Longrightarrow> k < length (digits n)"
proof (induction k arbitrary: n)
  case 0
  then show ?case using digits_nonempty [of n] by (cases "digits n") simp_all
next
  case (Suc k)
  have "(10::nat) \<le> 10 ^ Suc k" by simp
  with Suc.prems have n: "\<not> n < 10" by linarith
  have "10 ^ k \<le> n div 10"
    using Suc.prems by (simp add: less_eq_div_iff_mult_less_eq mult.commute)
  then have "k < length (digits (n div 10))" by (rule Suc.IH)
  with n show ?case by (subst digits.simps) simp
qed

lemma fmt_04d_four:
  assumes "0 \<le> f" "f \<le> 9999"
  shows "length (fmt_04d f) = 4"
proof -
  have "nat f < 10 ^ 4" using assms by simp
  then have "length (digits (nat f)) \<le> 4" by (intro digits_length_le) simp_all
  then show ?thesis using assms(1) by (simp add: fmt_04d_def zfill_length)
qed

lemma fmt_04d_full:
  assumes "10000 \<le> f"
  shows "fmt_04d f = digits (nat f)" and "4 < length (fmt_04d f)"
proof -
  have "10 ^ 4 \<le> nat f" using assms by simp
  then have l: "4 < length (digits (nat f))" by (rule digits_length_gt)
  then show "fmt_04d f = digits (nat f)" using assms by (simp add: fmt_04d_def zfill_def)
  with l show "4 < length (fmt_04d f)" by simp
qed

lemma rfind_notin: "c \<notin> set xs \<Longrightarrow> rfind xs c = - 1"
  by (induction xs) (auto simp: Let_def)
lemma rfind_last: "c \<notin> set ys \<Longrightarrow> rfind (xs @ c # ys) c = int (length xs)"
  by (induction xs) (simp_all add: Let_def rfind_notin)
lemma walk_rfind: "rfind ''/tmp/walk.kanim'' (CHR ''/'') = 4"
  using rfind_last [of "CHR ''/''" "''walk.kanim''" "''/tmp''"] by simp
lemma walk_split: "path_split ''/tmp/walk.kanim'' = (''/tmp'', ''walk.kanim'')"
  by (simp add: path_split_def Let_def rstrip_sep_def walk_rfind del: rfind.simps)
lemma walk_rfind_dot: "rfind ''walk.kanim'' (CHR ''.'') = 4"
  using rfind_last [of "CHR ''.''" "''kanim''" "''walk''"] by simp
lemma walk_rfind_sep: "rfind ''walk.kanim'' (CHR ''/'') = - 1"
  by (rule rfind_notin) simp
lemma walk_splitext: "splitext ''walk.kanim'' = (''walk'', ''.kanim'')"
  by (simp add: splitext_def Let_def leading_dots_only.simps walk_rfind_dot walk_rfind_sep del: rfind.simps)
lemma walk_basename: "output_basename walk_operator f = ''walk'' @ fmt_04d f @ ''.x3d''"
  by (simp add: output_basename_def walk_operator_def walk_split walk_splitext del: rfind.simps)
lemma walk_dir: "output_dir walk_operator = ''/tmp''"
  by (simp add: output_dir_def walk_operator_def walk_split del: rfind.simps)
lemma digit_chars:
  "digit_char 0 = CHR ''0''" "digit_char (Suc 0) = CHR ''1''" "digit_char 2 = CHR ''2''"
  by code_simp+
lemma fmt_10000: "fmt_04d 10000 = ''10000''"
  by (simp add: fmt_04d_def zfill_def digits.simps digit_chars)
lemma fmt_20000: "fmt_04d 20000 = ''20000''"
  by (simp add: fmt_04d_def zfill_def digits.simps digit_chars)
lemma walk_path: "x3d_path walk_operator f = ''/tmp/walk'' @ fmt_04d f @ ''.x3d''"
  by (simp add: x3d_path_def walk_dir walk_basename path_join_def del: rfind.simps)

lemma truediv_25_exact:
  assumes "\<bar>n\<bar> < 2 ^ 53"
  shows "truediv_25 n = Inr (to_binary64 (of_int n / 25))"
proof -
  have "\<bar>of_int n :: rat\<bar> < 2 ^ 1024"
    using float_of_int_in_range [OF assms] by (simp only: to_binary64_of_int [OF assms])
  then show ?thesis
    by (simp only: truediv_25_def to_binary64_of_int [OF assms] if_True)
qed

lemma output_frame_written:
  assumes "\<bar>f - s\<bar> < 2 ^ 53"
  shows "\<exists>w'. (output_frame h self w f s = Inr w' \<or> (\<exists>e. output_frame h self w f s = Inl (e, w')))
           \<and> kanim_written w' = kanim_written w @ [index_line self s f]
           \<and> (output_frame h self w f s = Inr w'
                \<longrightarrow> x3d_files w' = x3d_files w @ [(x3d_path self f, f)])"
proof (cases "output_frame h self w f s")
  case (Inl a)
  obtain e w' where a: "a = (e, w')" by (cases a)
  from output_frame_Inl [OF Inl [unfolded a] assms] Inl a show ?thesis by auto
next
  case (Inr w')
  from output_frame_Inr [OF Inr] Inr show ?thesis by auto
qed

lemma quiet_output_frame:
  assumes "\<bar>f - s\<bar> < 2 ^ 53"
  shows "output_frame quiet_host self w f s =
           Inr ((frame_set f (kanim_write (index_line self s f) w))
                 \<lparr>x3d_files := x3d_files w @ [(x3d_path self f, f)]\<rparr>)"
  by (simp add: output_frame_eq [OF assms] export_scene_x3d_def quiet_host_def
        frame_set_def kanim_write_def)

section \<open>The claims\<close>

text \<open>
  C5. The sampler's test vectors: with no failing collaborator, a run with start 0,
  end 10 and skip 4 exports exactly the frames 0, 5, 10; with end 12 it exports
  0, 5, 10, 12; with start 5, end 5 and skip 0 it exports the single frame 5, once.
\<close>
theorem sampler_test_vectors:
  assumes "open_raises h (filepath self) = None" and "\<forall>w p. x3d_raises h w p = None"
  shows "exported_frames h (self\<lparr>frame_skip := 4\<rparr>)
           (w\<lparr>scene := \<lparr>frame_start = 0, frame_end = 10, frame_current = c\<rparr>\<rparr>) = Some [0, 5, 10]
       \<and> exported_frames h (self\<lparr>frame_skip := 4\<rparr>)
           (w\<lparr>scene := \<lparr>frame_start = 0, frame_end = 12, frame_current = c\<rparr>\<rparr>) = Some [0, 5, 10, 12]
       \<and> exported_frames h (self\<lparr>frame_skip := 0\<rparr>)
           (w\<lparr>scene := \<lparr>frame_start = 5, frame_end = 5, frame_current = c\<rparr>\<rparr>) = Some [5]"
  using assms
  by (simp add: exported_frames_eq sampled_frames_def stride_frames_Cons stride_frames_Nil)

theorem sampler_test_vectors_witness:
  "exported_frames \<lparr>open_raises = (\<lambda>p. None), x3d_raises = (\<lambda>w p. None)\<rparr>
       \<lparr>filepath = ''/tmp/walk.kanim'', frame_skip = 4\<rparr>
       \<lparr>scene = \<lparr>frame_start = 0, frame_end = 10, frame_current = 1\<rparr>,
        kanim_written = [], kanim_open = False, x3d_files = []\<rparr> = Some [0, 5, 10]
   \<and> exported_frames \<lparr>open_raises = (\<lambda>p. None), x3d_raises = (\<lambda>w p. None)\<rparr>
       \<lparr>filepath = ''/tmp/walk.kanim'', frame_skip = 4\<rparr>
       \<lparr>scene = \<lparr>frame_start = 0, frame_end = 12, frame_current = 1\<rparr>,
        kanim_written = [], kanim_open = False, x3d_files = []\<rparr> = Some [0, 5, 10, 12]
   \<and> exported_frames \<lparr>open_raises = (\<lambda>p. None), x3d_raises = (\<lambda>w p. None)\<rparr>
       \<lparr>filepath = ''/tmp/walk.kanim'', frame_skip = 0\<rparr>
       \<lparr>scene = \<lparr>frame_start = 5, frame_end = 5, frame_current = 1\<rparr>,
        kanim_written = [], kanim_open = False, x3d_files = []\<rparr> = Some [5]"
  using sampler_test_vectors [where h = "\<lparr>open_raises = (\<lambda>p. None), x3d_raises = (\<lambda>w p. None)\<rparr>"
      and self = "\<lparr>filepath = ''/tmp/walk.kanim'', frame_skip = 4\<rparr>"
      and w = "\<lparr>scene = \<lparr>frame_start = 0, frame_end = 12, frame_current = 1\<rparr>,
        kanim_written = [], kanim_open = False, x3d_files = []\<rparr>" and c = 1]
  by simp

lemma execute_no_iteration:
  assumes "frame_end (scene w) \<le> frame_start (scene w)"
    and "\<bar>frame_end (scene w) - frame_start (scene w)\<bar> < 2 ^ 53"
    and "open_raises h (filepath self) = None"
    and "\<forall>w p. x3d_raises h w p = None"
  shows "execute h self w = Some (Inr (FINISHED, finished_world self [frame_end (scene w)] w))"
proof -
  define s e where "s = frame_start (scene w)" and "e = frame_end (scene w)"
  have hw: \<open>kanim_write ''<animation>\<newline>'' (kanim_write ''<?xml version="1.0"?>\<newline>''
          (w\<lparr>kanim_written := [], kanim_open := True\<rparr>)) = header_written w\<close>
    by (rule world.equality) (simp_all add: kanim_write_def header_written_def)
  have sc: "scene (header_written w) = scene w" by (simp add: header_written_def)
  have loop: "frame_loop h self s (header_written w) = Some (Inr (header_written w))"
    using assms(1) by (subst frame_loop.simps) (simp add: sc s_def)
  have out: "output_frame h self (header_written w) e s =
      Inr ((frame_set e (kanim_write (index_line self s e) (header_written w)))
            \<lparr>x3d_files := x3d_files w @ [(x3d_path self e, e)]\<rparr>)"
    using assms(2,4) unfolding s_def e_def
    by (simp add: output_frame_eq export_scene_x3d_def frame_set_def kanim_write_def header_written_def)
  have fin: "kanim_close (kanim_write ''</animation>\<newline>''
      ((frame_set e (kanim_write (index_line self s e) (header_written w)))
            \<lparr>x3d_files := x3d_files w @ [(x3d_path self e, e)]\<rparr>)) = finished_world self [e] w"
    by (rule world.equality)
      (simp_all add: kanim_close_def kanim_write_def frame_set_def header_written_def
        finished_world_def s_def e_def)
  show ?thesis
    using assms(3) loop out fin
    by (simp add: execute_def py_open_def hw sc s_def [symmetric] e_def [symmetric])
qed

text \<open>
  C10. When \<open>frame_end < frame_start\<close> the loop body is never entered (the loop returns
  the world it was given), so the run writes exactly one frame line and exports exactly
  one model file, both for \<open>frame_end\<close>. This needs no assumption on \<open>frame_skip\<close>.
\<close>
theorem reversed_range_exports_end_only:
  assumes "frame_end (scene w) < frame_start (scene w)"
    and "\<bar>frame_end (scene w) - frame_start (scene w)\<bar> < 2 ^ 53"
    and "open_raises h (filepath self) = None"
    and "\<forall>w p. x3d_raises h w p = None"
  shows \<open>frame_loop h self (frame_start (scene w)) (header_written w) = Some (Inr (header_written w))
    \<and> (\<exists>w'. execute h self w = Some (Inr (FINISHED, w'))
          \<and> kanim_written w' =
               [''<?xml version="1.0"?>\<newline>'', ''<animation>\<newline>'',
                index_line self (frame_start (scene w)) (frame_end (scene w)),
                ''</animation>\<newline>'']
          \<and> x3d_files w' = x3d_files w @ [(x3d_path self (frame_end (scene w)), frame_end (scene w))])
    \<and> exported_frames h self w = Some [frame_end (scene w)]\<close>
proof -
  have le: "frame_end (scene w) \<le> frame_start (scene w)" using assms(1) by simp
  have "frame_loop h self (frame_start (scene w)) (header_written w) = Some (Inr (header_written w))"
    using assms(1) by (subst frame_loop.simps) (simp add: header_written_def)
  moreover note ex = execute_no_iteration [OF le assms(2,3,4)]
  moreover have "exported_frames h self w = Some [frame_end (scene w)]"
    by (simp add: exported_frames_def ex finished_world_def)
  ultimately show ?thesis
    by (simp add: finished_world_def)
qed

theorem reversed_range_exports_end_only_witness:
  \<open>frame_loop \<lparr>open_raises = (\<lambda>p. None), x3d_raises = (\<lambda>w p. None)\<rparr>
       \<lparr>filepath = ''/tmp/walk.kanim'', frame_skip = 4\<rparr> 5
       (header_written \<lparr>scene = \<lparr>frame_start = 5, frame_end = 3, frame_current = 1\<rparr>,
          kanim_written = [], kanim_open = False, x3d_files = []\<rparr>) =
     Some (Inr (header_written \<lparr>scene = \<lparr>frame_start = 5, frame_end = 3, frame_current = 1\<rparr>,
          kanim_written = [], kanim_open = False, x3d_files = []\<rparr>))
   \<and> exported_frames \<lparr>open_raises = (\<lambda>p. None), x3d_raises = (\<lambda>w p. None)\<rparr>
       \<lparr>filepath = ''/tmp/walk.kanim'', frame_skip = 4\<rparr>
       \<lparr>scene = \<lparr>frame_start = 5, frame_end = 3, frame_current = 1\<rparr>,
        kanim_written = [], kanim_open = False, x3d_files = []\<rparr> = Some [3]\<close>
  using reversed_range_exports_end_only [where h = "\<lparr>open_raises = (\<lambda>p. None), x3d_raises = (\<lambda>w p. None)\<rparr>"
      and self = "\<lparr>filepath = ''/tmp/walk.kanim'', frame_skip = 4\<rparr>"
      and w = "\<lparr>scene = \<lparr>frame_start = 5, frame_end = 3, frame_current = 1\<rparr>,
        kanim_written = [], kanim_open = False, x3d_files = []\<rparr>"]
  by simp

text \<open>
  C6. The claim says that with \<open>end < start\<close> the exported sequence is \<open>[start, end]\<close>.
  It is not: with start 5 and end 3 the run does not export \<open>[5, 3]\<close>.
\<close>
theorem reversed_range_counterexample:
  \<open>exported_frames \<lparr>open_raises = (\<lambda>p. None), x3d_raises = (\<lambda>w p. None)\<rparr>
       \<lparr>filepath = ''/tmp/walk.kanim'', frame_skip = 4\<rparr>
       \<lparr>scene = \<lparr>frame_start = 5, frame_end = 3, frame_current = 1\<rparr>,
        kanim_written = [], kanim_open = False, x3d_files = []\<rparr> \<noteq> Some [5, 3]\<close>
proof -
  have \<open>exported_frames \<lparr>open_raises = (\<lambda>p. None), x3d_raises = (\<lambda>w p. None)\<rparr>
       \<lparr>filepath = ''/tmp/walk.kanim'', frame_skip = 4\<rparr>
       \<lparr>scene = \<lparr>frame_start = 5, frame_end = 3, frame_current = 1\<rparr>,
        kanim_written = [], kanim_open = False, x3d_files = []\<rparr> = Some [3]\<close>
    by (simp add: exported_frames_def execute_no_iteration finished_world_def)
  then show ?thesis by simp
qed

text \<open>
  C6, as the code has it: when \<open>end < start\<close> the frame \<open>start\<close> is not exported; the
  exported sequence is the single frame \<open>end\<close>.
\<close>

theorem reversed_range_start_not_exported:
  assumes "frame_end (scene w) < frame_start (scene w)"
    and "\<bar>frame_end (scene w) - frame_start (scene w)\<bar> < 2 ^ 53"
    and "open_raises h (filepath self) = None"
    and "\<forall>w p. x3d_raises h w p = None"
  shows "exported_frames h self w = Some [frame_end (scene w)]
    \<and> exported_frames h self w \<noteq> Some [frame_start (scene w), frame_end (scene w)]"
proof -
  have le: "frame_end (scene w) \<le> frame_start (scene w)" using assms(1) by simp
  show ?thesis
    by (simp add: exported_frames_def execute_no_iteration [OF le assms(2,3,4)] finished_world_def)
qed

theorem reversed_range_start_not_exported_witness:
  \<open>exported_frames \<lparr>open_raises = (\<lambda>p. None), x3d_raises = (\<lambda>w p. None)\<rparr>
       \<lparr>filepath = ''/tmp/walk.kanim'', frame_skip = 4\<rparr>
       \<lparr>scene = \<lparr>frame_start = 7, frame_end = 2, frame_current = 1\<rparr>,
        kanim_written = [], kanim_open = False, x3d_files = []\<rparr> = Some [2]\<close>
  using reversed_range_start_not_exported [where h = "\<lparr>open_raises = (\<lambda>p. None), x3d_raises = (\<lambda>w p. None)\<rparr>"
      and self = "\<lparr>filepath = ''/tmp/walk.kanim'', frame_skip = 4\<rparr>"
      and w = "\<lparr>scene = \<lparr>frame_start = 7, frame_end = 2, frame_current = 1\<rparr>,
        kanim_written = [], kanim_open = False, x3d_files = []\<rparr>"]
  by simp

text \<open>
  C1. The frame sampler's contract: for a non-negative skip and \<open>start \<le> end\<close>, a run
  with no failing collaborator exports a sequence of frames that is strictly increasing
  and without duplicates, begins at \<open>start\<close>, ends with \<open>end\<close>, and whose elements before
  the last are \<open>start + i * (skip + 1)\<close>, all below \<open>end\<close>; the stride stops because its
  next value would reach or pass \<open>end\<close>.
\<close>
theorem sampler_contract:
  assumes "0 \<le> frame_skip self"
    and "frame_start (scene w) \<le> frame_end (scene w)"
    and "frame_end (scene w) - frame_start (scene w) < 2 ^ 53"
    and "open_raises h (filepath self) = None"
    and "\<forall>w p. x3d_raises h w p = None"
  shows "\<exists>fs. exported_frames h self w = Some fs
           \<and> sorted_wrt (<) fs \<and> distinct fs
           \<and> hd fs = frame_start (scene w)
           \<and> last fs = frame_end (scene w)
           \<and> (\<forall>i. Suc i < length fs \<longrightarrow>
                  fs ! i = frame_start (scene w) + int i * (frame_skip self + 1)
                  \<and> fs ! i < frame_end (scene w))
           \<and> frame_end (scene w)
                \<le> frame_start (scene w) + int (length fs - 1) * (frame_skip self + 1)"
proof -
  define s e k where "s = frame_start (scene w)" and "e = frame_end (scene w)"
    and "k = frame_skip self"
  define fs where "fs = sampled_frames s e k"
  have k: "0 \<le> k" and se: "s \<le> e" using assms(1,2) by (simp_all add: s_def e_def k_def)
  have r: "\<bar>frame_end (scene w) - frame_start (scene w)\<bar> < 2 ^ 53"
    using assms(2,3) by simp
  have 1: "exported_frames h self w = Some fs"
    unfolding fs_def s_def e_def k_def by (rule exported_frames_eq [OF assms(1) r assms(4,5)])
  have 2: "sorted_wrt (<) fs" unfolding fs_def by (rule sampled_frames_sorted [OF k])
  then have 3: "distinct fs" by (simp add: strict_sorted_iff)
  have 4: "hd fs = s" unfolding fs_def by (rule sampled_frames_hd [OF k se])
  have 5: "last fs = e" by (simp add: fs_def sampled_frames_def)
  have 6: "fs ! i = s + int i * (k + 1) \<and> fs ! i < e" if "Suc i < length fs" for i
  proof -
    from that have i: "i < length (stride_frames s e k)" by (simp add: fs_def sampled_frames_def)
    then have "fs ! i = stride_frames s e k ! i" by (simp add: fs_def sampled_frames_def nth_append)
    moreover have "stride_frames s e k ! i \<in> set (stride_frames s e k)" using i by simp
    ultimately show ?thesis
      using stride_frames_nth [OF i] stride_frames_bounds [OF _ k] by simp
  qed
  have 7: "e \<le> s + int (length fs - 1) * (k + 1)"
    using stride_frames_next [OF k se] by (simp add: fs_def sampled_frames_def)
  from 1 2 3 4 5 6 7 show ?thesis
    unfolding s_def e_def k_def by blast
qed

theorem sampler_contract_witness:
  "\<exists>fs. exported_frames \<lparr>open_raises = (\<lambda>p. None), x3d_raises = (\<lambda>w p. None)\<rparr>
       \<lparr>filepath = ''/tmp/walk.kanim'', frame_skip = 4\<rparr>
       \<lparr>scene = \<lparr>frame_start = 0, frame_end = 12, frame_current = 1\<rparr>,
        kanim_written = [], kanim_open = False, x3d_files = []\<rparr> = Some fs
     \<and> sorted_wrt (<) fs \<and> distinct fs \<and> hd fs = 0 \<and> last fs = 12
     \<and> (\<forall>i. Suc i < length fs \<longrightarrow> fs ! i = 0 + int i * (4 + 1) \<and> fs ! i < 12)
     \<and> 12 \<le> 0 + int (length fs - 1) * (4 + 1)"
  using sampler_contract [where h = "\<lparr>open_raises = (\<lambda>p. None), x3d_raises = (\<lambda>w p. None)\<rparr>"
      and self = "\<lparr>filepath = ''/tmp/walk.kanim'', frame_skip = 4\<rparr>"
      and w = "\<lparr>scene = \<lparr>frame_start = 0, frame_end = 12, frame_current = 1\<rparr>,
        kanim_written = [], kanim_open = False, x3d_files = []\<rparr>"]
  by simp



text \<open>
  C7. The claim says the text handle is closed on any error raised during the export
  loop. It is not: when the exporter raises at frame 5 the run ends with the handle
  still open (\<^verbatim>\<open>close\<close> is a plain statement after the loop, with no \<^verbatim>\<open>with\<close> or
  \<^verbatim>\<open>try\<close>/\<^verbatim>\<open>finally\<close> around it).
\<close>

theorem handle_left_open_counterexample:
  "map_option (map_sum (kanim_open \<circ> snd) (kanim_open \<circ> snd))
     (execute (failing_host 5 (RuntimeError ''x3d'')) walk_operator (fresh_world 0 12))
   = Some (Inl True)"
  by (simp add: failing_run world_at_def header_written_def)

text \<open>
  C7, as the code has it: a run that finishes has closed the handle; a run that opened
  the file and then ended with an exception has not.
\<close>

theorem handle_closed_only_on_success:
  assumes "0 \<le> frame_skip self"
    and "\<bar>frame_end (scene w) - frame_start (scene w)\<bar> < 2 ^ 53"
  shows "(execute h self w = Some (Inr (r, w')) \<longrightarrow> \<not> kanim_open w')
       \<and> (open_raises h (filepath self) = None \<and> execute h self w = Some (Inl (err, w'))
            \<longrightarrow> kanim_open w')"
proof (intro conjI impI)
  assume "execute h self w = Some (Inr (r, w'))"
  from execute_Inr [OF assms(1) this] show "\<not> kanim_open w'"
    by (simp add: finished_world_def)
next
  assume a: "open_raises h (filepath self) = None \<and> execute h self w = Some (Inl (err, w'))"
  from execute_Inl [OF assms(1,2) _ refl, of h err w'] a show "kanim_open w'"
    by (auto simp: world_at_def header_written_def)
qed

theorem handle_closed_only_on_success_witness:
  "\<not> kanim_open (finished_world walk_operator [0, 5, 10, 12] (fresh_world 0 12))
   \<and> kanim_open (world_at walk_operator 0 [0, 5, 10, 12] (header_written (fresh_world 0 12)) 1)"
  using handle_closed_only_on_success [where h = quiet_host and self = walk_operator
      and w = "fresh_world 0 12" and r = FINISHED
      and w' = "finished_world walk_operator [0, 5, 10, 12] (fresh_world 0 12)"]
    handle_closed_only_on_success [where h = "failing_host 5 (RuntimeError ''x3d'')"
      and self = walk_operator and w = "fresh_world 0 12" and err = "RuntimeError ''x3d''"
      and w' = "world_at walk_operator 0 [0, 5, 10, 12] (header_written (fresh_world 0 12)) 1"]
    quiet_run failing_run [of "RuntimeError ''x3d''"]
  by (simp add: walk_operator_def fresh_world_def failing_host_def)

text \<open>
  C8. If the host exporter raises at a sampled frame (the \<open>k\<close>-th, having returned for
  those before it), the run ends with that very exception, the model files it added are
  those of the frames before the \<open>k\<close>-th and no other, and the root-closing line is not
  among the lines written; the handle stays open.
\<close>

theorem exporter_failure_propagates:
  assumes "0 \<le> frame_skip self"
    and "\<bar>frame_end (scene w) - frame_start (scene w)\<bar> < 2 ^ 53"
    and "open_raises h (filepath self) = None"
    and "fs = sampled_frames (frame_start (scene w)) (frame_end (scene w)) (frame_skip self)"
    and "k < length fs"
    and "\<forall>j < k. x3d_raises h (world_at self (frame_start (scene w)) fs (header_written w) j)
                    (x3d_path self (fs ! j)) = None"
    and "x3d_raises h (world_at self (frame_start (scene w)) fs (header_written w) k)
           (x3d_path self (fs ! k)) = Some err"
  shows \<open>\<exists>w'. execute h self w = Some (Inl (err, w'))
           \<and> map snd (drop (length (x3d_files w)) (x3d_files w')) = take k fs
           \<and> ''</animation>\<newline>'' \<notin> set (kanim_written w')
           \<and> kanim_open w'\<close>
proof -
  define w' where "w' = world_at self (frame_start (scene w)) fs (header_written w) k"
  have "execute h self w = Some (Inl (err, w'))"
    unfolding w'_def by (rule execute_fails_at [OF assms])
  moreover have "map snd (drop (length (x3d_files w)) (x3d_files w')) = take k fs"
    by (simp add: w'_def world_at_def header_written_def comp_def)
  moreover have \<open>''</animation>\<newline>'' \<notin> set (kanim_written w')\<close>
    by (auto simp: w'_def world_at_def header_written_def index_line_not_closing
          index_line_not_closing [symmetric])
  moreover have "kanim_open w'"
    by (simp add: w'_def world_at_def header_written_def)
  ultimately show ?thesis by blast
qed

theorem exporter_failure_propagates_witness:
  \<open>\<exists>w'. execute (failing_host 5 (RuntimeError ''x3d'')) walk_operator (fresh_world 0 12)
            = Some (Inl (RuntimeError ''x3d'', w'))
        \<and> map snd (drop (length (x3d_files (fresh_world 0 12))) (x3d_files w')) = take 1 [0, 5, 10, 12]
        \<and> ''</animation>\<newline>'' \<notin> set (kanim_written w')
        \<and> kanim_open w'\<close>
  by (rule exporter_failure_propagates [where k = 1])
    (simp_all add: failing_host_def walk_operator_def fresh_world_def concrete_sampled world_at_def)

text \<open>
  C2. \<^verbatim>\<open>output_frame\<close>, called for frame \<open>F\<close> with start frame \<open>S\<close>, appends to the index
  exactly one line, whether the exporter then returns or raises, and the \<open>time\<close>
  attribute of that line is \<open>(F - S) / 25\<close> printed with exactly six digits after the
  point: the division raises nothing, and the rounding of the binary64 quotient does
  not reach the sixth decimal, so the text is that of the exact quotient, sign, integer
  part \<open>|F - S| div 25\<close>, point, and the six-digit fraction \<open>(|F - S| mod 25) * 40000\<close>.
  For \<open>F = S\<close> the line written carries \<open>0.000000\<close>. Frame numbers of the host are
  machine integers, so their difference is below \<open>2^32\<close> in magnitude.
\<close>

theorem time_attribute:
  assumes "\<bar>F - S\<bar> < 2 ^ 32"
  shows \<open>(\<exists>w'. (output_frame h self w F S = Inr w' \<or> (\<exists>e. output_frame h self w F S = Inl (e, w')))
           \<and> kanim_written w' = kanim_written w @
                [''  <frame file_name="'' @ output_basename self F @ ''" time="''
                   @ format_f (of_int (F - S) / 25) @ ''" />\<newline>''])
       \<and> truediv_25 (F - S) = Inr (to_binary64 (of_int (F - S) / 25))
       \<and> format_f (to_binary64 (of_int (F - S) / 25)) = format_f (of_int (F - S) / 25)
       \<and> format_f (of_int (F - S) / 25) =
           (if F < S then ''-'' else []) @ digits (nat (\<bar>F - S\<bar> div 25)) @ ''.''
             @ zfill 6 (digits (nat (\<bar>F - S\<bar> mod 25) * 40000))
       \<and> length (zfill 6 (digits (nat (\<bar>F - S\<bar> mod 25) * 40000))) = 6
       \<and> (\<exists>w'. (output_frame h self w S S = Inr w' \<or> (\<exists>e. output_frame h self w S S = Inl (e, w')))
           \<and> kanim_written w' = kanim_written w @
                [''  <frame file_name="'' @ output_basename self S @ ''" time="0.000000" />\<newline>''])\<close>
proof -
  have r: "\<bar>F - S\<bar> < 2 ^ 53" using assms by simp
  have r0: "\<bar>S - S\<bar> < 2 ^ 53" by simp
  have l: \<open>index_line self S F =
      ''  <frame file_name="'' @ output_basename self F @ ''" time="''
                   @ format_f (of_int (F - S) / 25) @ ''" />\<newline>''\<close>
    by (simp add: index_line_def frame_line_def time_attr_exact [OF assms])
  have l0: \<open>index_line self S S =
      ''  <frame file_name="'' @ output_basename self S @ ''" time="0.000000" />\<newline>''\<close>
    by (simp add: index_line_def frame_line_def time_attr_0)
  have 1: \<open>\<exists>w'. (output_frame h self w F S = Inr w' \<or> (\<exists>e. output_frame h self w F S = Inl (e, w')))
           \<and> kanim_written w' = kanim_written w @
                [''  <frame file_name="'' @ output_basename self F @ ''" time="''
                   @ format_f (of_int (F - S) / 25) @ ''" />\<newline>'']\<close>
    using output_frame_written [OF r, of h self w] unfolding l by blast
  have 2: "truediv_25 (F - S) = Inr (to_binary64 (of_int (F - S) / 25))"
    by (rule truediv_25_exact [OF r])
  have 3: "format_f (to_binary64 (of_int (F - S) / 25)) = format_f (of_int (F - S) / 25)"
    using time_attr_exact [OF assms] by (simp only: time_attr_def to_binary64_of_int [OF r])
  have 4: \<open>format_f (of_int (F - S) / 25) =
           (if F < S then ''-'' else []) @ digits (nat (\<bar>F - S\<bar> div 25)) @ ''.''
             @ zfill 6 (digits (nat (\<bar>F - S\<bar> mod 25) * 40000))\<close>
    using format_f_exact [of "F - S"] by simp
  have 5: "length (zfill 6 (digits (nat (\<bar>F - S\<bar> mod 25) * 40000))) = 6"
    by (rule fraction_length)
  have 6: \<open>\<exists>w'. (output_frame h self w S S = Inr w' \<or> (\<exists>e. output_frame h self w S S = Inl (e, w')))
           \<and> kanim_written w' = kanim_written w @
                [''  <frame file_name="'' @ output_basename self S @ ''" time="0.000000" />\<newline>'']\<close>
    using output_frame_written [OF r0, of h self w] unfolding l0 by blast
  from 1 2 3 4 5 6 show ?thesis by (intro conjI)
qed

theorem time_attribute_witness:
  \<open>(\<exists>w'. (output_frame quiet_host walk_operator (fresh_world 2 7) 7 2 = Inr w'
            \<or> (\<exists>e. output_frame quiet_host walk_operator (fresh_world 2 7) 7 2 = Inl (e, w')))
           \<and> kanim_written w' = kanim_written (fresh_world 2 7) @
                [''  <frame file_name="'' @ output_basename walk_operator 7 @ ''" time="''
                   @ format_f (of_int (7 - 2) / 25) @ ''" />\<newline>''])
       \<and> truediv_25 (7 - 2) = Inr (to_binary64 (of_int (7 - 2) / 25))
       \<and> format_f (to_binary64 (of_int (7 - 2) / 25)) = format_f (of_int (7 - 2) / 25)
       \<and> format_f (of_int (7 - 2) / 25) =
           (if (7::int) < 2 then ''-'' else []) @ digits (nat (\<bar>7 - 2\<bar> div 25)) @ ''.''
             @ zfill 6 (digits (nat (\<bar>7 - 2\<bar> mod 25) * 40000))
       \<and> length (zfill 6 (digits (nat (\<bar>7 - 2\<bar> mod 25) * 40000))) = 6
       \<and> (\<exists>w'. (output_frame quiet_host walk_operator (fresh_world 2 7) 2 2 = Inr w'
            \<or> (\<exists>e. output_frame quiet_host walk_operator (fresh_world 2 7) 2 2 = Inl (e, w')))
           \<and> kanim_written w' = kanim_written (fresh_world 2 7) @
                [''  <frame file_name="'' @ output_basename walk_operator 2 @ ''" time="0.000000" />\<newline>''])\<close>
  by (rule time_attribute) simp

text \<open>
  C9. For every sampled frame, \<^verbatim>\<open>output_frame\<close> writes the index line before it calls
  the host exporter: the exporter runs in a world whose lines already end with the line
  of that frame and that holds no model file of it yet. So if the exporter raises at a
  sampled frame (the \<open>k\<close>-th, having returned for those before it), the run ends with
  that exception, the last line of the index is the entry naming the model file of that
  frame, and no model file of that frame is among the files the run added.
\<close>

theorem index_line_precedes_export:
  assumes "0 \<le> frame_skip self"
    and "\<bar>frame_end (scene w) - frame_start (scene w)\<bar> < 2 ^ 53"
    and "fs = sampled_frames (frame_start (scene w)) (frame_end (scene w)) (frame_skip self)"
    and "s = frame_start (scene w)"
  shows "(\<forall>f \<in> set fs. \<forall>w0.
            output_frame h self w0 f s
              = export_scene_x3d h (x3d_path self f)
                  (frame_set f (kanim_write (index_line self s f) w0))
            \<and> kanim_written (frame_set f (kanim_write (index_line self s f) w0))
                = kanim_written w0 @ [frame_line (output_basename self f) (time_attr (f - s))]
            \<and> x3d_files (frame_set f (kanim_write (index_line self s f) w0)) = x3d_files w0)
       \<and> (\<forall>k err.
             open_raises h (filepath self) = None \<and> k < length fs
             \<and> (\<forall>j < k. x3d_raises h (world_at self s fs (header_written w) j)
                           (x3d_path self (fs ! j)) = None)
             \<and> x3d_raises h (world_at self s fs (header_written w) k)
                  (x3d_path self (fs ! k)) = Some err
             \<longrightarrow> (\<exists>w'. execute h self w = Some (Inl (err, w'))
                    \<and> last (kanim_written w')
                        = frame_line (output_basename self (fs ! k)) (time_attr (fs ! k - s))
                    \<and> fs ! k \<notin> snd ` set (drop (length (x3d_files w)) (x3d_files w'))))"
proof (intro conjI ballI allI impI)
  fix f w0 assume "f \<in> set fs"
  with sampled_frames_range [OF assms(1,2)] have "\<bar>f - s\<bar> < 2 ^ 53"
    by (simp add: assms(3,4))
  then show "output_frame h self w0 f s
              = export_scene_x3d h (x3d_path self f)
                  (frame_set f (kanim_write (index_line self s f) w0))"
    by (rule output_frame_eq)
next
  fix f w0
  show "kanim_written (frame_set f (kanim_write (index_line self s f) w0))
          = kanim_written w0 @ [frame_line (output_basename self f) (time_attr (f - s))]"
    by (simp add: frame_set_def kanim_write_def index_line_def)
next
  fix f w0
  show "x3d_files (frame_set f (kanim_write (index_line self s f) w0)) = x3d_files w0"
    by (simp add: frame_set_def kanim_write_def)
next
  fix k err
  assume a: "open_raises h (filepath self) = None \<and> k < length fs
             \<and> (\<forall>j < k. x3d_raises h (world_at self s fs (header_written w) j)
                           (x3d_path self (fs ! j)) = None)
             \<and> x3d_raises h (world_at self s fs (header_written w) k)
                  (x3d_path self (fs ! k)) = Some err"
  define w' where "w' = world_at self s fs (header_written w) k"
  from a have k: "k < length fs" by simp
  have e: "execute h self w = Some (Inl (err, w'))"
    unfolding w'_def assms(4)
    by (rule execute_fails_at [OF assms(1,2) _ assms(3)]) (use a in \<open>simp_all add: assms(4)\<close>)
  have "distinct fs"
    using sampled_frames_sorted [OF assms(1)] by (simp add: assms(3) strict_sorted_iff)
  from distinct_nth_notin_take [OF this k]
  have n: "fs ! k \<notin> snd ` set (drop (length (x3d_files w)) (x3d_files w'))"
    by (simp add: w'_def world_at_def header_written_def image_image)
  have l: "last (kanim_written w')
             = frame_line (output_basename self (fs ! k)) (time_attr (fs ! k - s))"
    using k by (simp add: w'_def world_at_def take_Suc_conv_app_nth index_line_def)
  from e n l show "\<exists>w'. execute h self w = Some (Inl (err, w'))
                    \<and> last (kanim_written w')
                        = frame_line (output_basename self (fs ! k)) (time_attr (fs ! k - s))
                    \<and> fs ! k \<notin> snd ` set (drop (length (x3d_files w)) (x3d_files w'))"
    by blast
qed

theorem index_line_precedes_export_witness:
  "(\<forall>w0. output_frame (failing_host 5 (RuntimeError ''x3d'')) walk_operator w0 10 0
            = export_scene_x3d (failing_host 5 (RuntimeError ''x3d'')) (x3d_path walk_operator 10)
                (frame_set 10 (kanim_write (index_line walk_operator 0 10) w0)))
   \<and> (\<exists>w'. execute (failing_host 5 (RuntimeError ''x3d'')) walk_operator (fresh_world 0 12)
              = Some (Inl (RuntimeError ''x3d'', w'))
          \<and> last (kanim_written w')
              = frame_line (output_basename walk_operator 5) (time_attr (5 - 0))
          \<and> 5 \<notin> snd ` set (drop (length (x3d_files (fresh_world 0 12))) (x3d_files w')))"
proof -
  have fs: "[0, 5, 10, 12] = sampled_frames (frame_start (scene (fresh_world 0 12)))
              (frame_end (scene (fresh_world 0 12))) (frame_skip walk_operator)"
    by (simp add: fresh_world_def walk_operator_def concrete_sampled)
  have T: "0 \<le> frame_skip walk_operator"
    "\<bar>frame_end (scene (fresh_world 0 12)) - frame_start (scene (fresh_world 0 12))\<bar> < 2 ^ 53"
    "(0::int) = frame_start (scene (fresh_world 0 12))"
    by (simp_all add: fresh_world_def walk_operator_def)
  note inst = index_line_precedes_export [OF T(1,2) fs T(3), of "failing_host 5 (RuntimeError ''x3d'')"]
  from inst have A: "\<forall>w0. output_frame (failing_host 5 (RuntimeError ''x3d'')) walk_operator w0 10 0
            = export_scene_x3d (failing_host 5 (RuntimeError ''x3d'')) (x3d_path walk_operator 10)
                (frame_set 10 (kanim_write (index_line walk_operator 0 10) w0))"
    by simp
  from inst have B: "open_raises (failing_host 5 (RuntimeError ''x3d'')) (filepath walk_operator) = None \<and> 1 < length [0, 5, 10, 12 :: int]
             \<and> (\<forall>j < 1. x3d_raises (failing_host 5 (RuntimeError ''x3d'')) (world_at walk_operator 0 [0, 5, 10, 12] (header_written (fresh_world 0 12)) j)
                           (x3d_path walk_operator ([0, 5, 10, 12] ! j)) = None)
             \<and> x3d_raises (failing_host 5 (RuntimeError ''x3d'')) (world_at walk_operator 0 [0, 5, 10, 12] (header_written (fresh_world 0 12)) 1)
                  (x3d_path walk_operator ([0, 5, 10, 12] ! 1)) = Some (RuntimeError ''x3d'')
             \<longrightarrow> (\<exists>w'. execute (failing_host 5 (RuntimeError ''x3d'')) walk_operator (fresh_world 0 12) = Some (Inl (RuntimeError ''x3d'', w'))
                    \<and> last (kanim_written w')
                        = frame_line (output_basename walk_operator ([0, 5, 10, 12] ! 1)) (time_attr ([0, 5, 10, 12] ! 1 - 0))
                    \<and> [0, 5, 10, 12] ! 1 \<notin> snd ` set (drop (length (x3d_files (fresh_world 0 12))) (x3d_files w')))"
    by blast
  have "\<exists>w'. execute (failing_host 5 (RuntimeError ''x3d'')) walk_operator (fresh_world 0 12) = Some (Inl (RuntimeError ''x3d'', w'))
                    \<and> last (kanim_written w')
                        = frame_line (output_basename walk_operator ([0, 5, 10, 12] ! 1)) (time_attr ([0, 5, 10, 12] ! 1 - 0))
                    \<and> [0, 5, 10, 12] ! 1 \<notin> snd ` set (drop (length (x3d_files (fresh_world 0 12))) (x3d_files w'))"
    by (rule B [rule_format])
      (simp add: failing_host_def world_at_def header_written_def fresh_world_def)
  with A show ?thesis by simp
qed

text \<open>
  C3. The claim says that frame numbers from 10000 on collide. They do not:
  \<^verbatim>\<open>%04d\<close> pads to at least four columns and never cuts a number. The path handed to
  the exporter for frame 10000 ends in \<open>walk10000.x3d\<close> and for frame 20000 in
  \<open>walk20000.x3d\<close>, and no two distinct frames from 10000 on share a file name.
\<close>

theorem file_name_collision_counterexample:
  "(case output_frame quiet_host walk_operator (fresh_world 0 20000) 10000 0 of
      Inl x \<Rightarrow> [] | Inr w' \<Rightarrow> x3d_files w') = [(''/tmp/walk10000.x3d'', 10000)]
   \<and> (case output_frame quiet_host walk_operator (fresh_world 0 20000) 20000 0 of
      Inl x \<Rightarrow> [] | Inr w' \<Rightarrow> x3d_files w') = [(''/tmp/walk20000.x3d'', 20000)]
   \<and> \<not> (\<exists>f g. 10000 \<le> f \<and> 10000 \<le> g \<and> f \<noteq> g
            \<and> output_basename walk_operator f = output_basename walk_operator g)"
proof (intro conjI)
  show "(case output_frame quiet_host walk_operator (fresh_world 0 20000) 10000 0 of
      Inl x \<Rightarrow> [] | Inr w' \<Rightarrow> x3d_files w') = [(''/tmp/walk10000.x3d'', 10000)]"
    by (simp add: quiet_output_frame walk_path fmt_10000 fresh_world_def)
  show "(case output_frame quiet_host walk_operator (fresh_world 0 20000) 20000 0 of
      Inl x \<Rightarrow> [] | Inr w' \<Rightarrow> x3d_files w') = [(''/tmp/walk20000.x3d'', 20000)]"
    by (simp add: quiet_output_frame walk_path fmt_20000 fresh_world_def)
  show "\<not> (\<exists>f g. 10000 \<le> f \<and> 10000 \<le> g \<and> f \<noteq> g
            \<and> output_basename walk_operator f = output_basename walk_operator g)"
    using output_basename_inj by blast
qed

text \<open>
  C3, as the code has it: the file name \<^verbatim>\<open>output_frame\<close> writes into the index line of
  a frame, and hands to the exporter joined to the directory, is the base name of the
  export path without its extension, then the frame number padded with zeros to at
  least four digits, then \<open>.x3d\<close>. Frames 0 to 9999 take exactly four digits, frames
  from 10000 on are written in full with more than four, and distinct frame numbers
  always give distinct names.
\<close>

theorem file_name_generation:
  assumes "\<bar>f - s\<bar> < 2 ^ 53"
  shows \<open>(\<exists>w'. (output_frame h self w f s = Inr w' \<or> (\<exists>e. output_frame h self w f s = Inl (e, w')))
           \<and> kanim_written w' = kanim_written w @
                [''  <frame file_name="''
                   @ fst (splitext (snd (path_split (filepath self)))) @ fmt_04d f @ ''.x3d''
                   @ ''" time="'' @ time_attr (f - s) @ ''" />\<newline>'']
           \<and> (output_frame h self w f s = Inr w' \<longrightarrow>
                x3d_files w' = x3d_files w @
                  [(path_join (fst (path_split (filepath self)))
                      (fst (splitext (snd (path_split (filepath self)))) @ fmt_04d f @ ''.x3d''), f)]))
       \<and> (0 \<le> f \<and> f \<le> 9999 \<longrightarrow> length (fmt_04d f) = 4)
       \<and> (10000 \<le> f \<longrightarrow> fmt_04d f = digits (nat f) \<and> 4 < length (fmt_04d f))
       \<and> (\<forall>g. fst (splitext (snd (path_split (filepath self)))) @ fmt_04d f @ ''.x3d''
                = fst (splitext (snd (path_split (filepath self)))) @ fmt_04d g @ ''.x3d''
              \<longrightarrow> f = g)\<close>
proof -
  have l: \<open>index_line self s f = ''  <frame file_name="''
                   @ fst (splitext (snd (path_split (filepath self)))) @ fmt_04d f @ ''.x3d''
                   @ ''" time="'' @ time_attr (f - s) @ ''" />\<newline>''\<close>
    by (simp add: index_line_def frame_line_def output_basename_def)
  have p: "x3d_path self f = path_join (fst (path_split (filepath self)))
                      (fst (splitext (snd (path_split (filepath self)))) @ fmt_04d f @ ''.x3d'')"
    by (simp add: x3d_path_def output_dir_def output_basename_def)
  have 1: \<open>\<exists>w'. (output_frame h self w f s = Inr w' \<or> (\<exists>e. output_frame h self w f s = Inl (e, w')))
           \<and> kanim_written w' = kanim_written w @
                [''  <frame file_name="''
                   @ fst (splitext (snd (path_split (filepath self)))) @ fmt_04d f @ ''.x3d''
                   @ ''" time="'' @ time_attr (f - s) @ ''" />\<newline>'']
           \<and> (output_frame h self w f s = Inr w' \<longrightarrow>
                x3d_files w' = x3d_files w @
                  [(path_join (fst (path_split (filepath self)))
                      (fst (splitext (snd (path_split (filepath self)))) @ fmt_04d f @ ''.x3d''), f)])\<close>
    using output_frame_written [OF assms, of h self w] unfolding l p .
  have 2: "0 \<le> f \<and> f \<le> 9999 \<longrightarrow> length (fmt_04d f) = 4"
    using fmt_04d_four [of f] by blast
  have 3: "10000 \<le> f \<longrightarrow> fmt_04d f = digits (nat f) \<and> 4 < length (fmt_04d f)"
    using fmt_04d_full [of f] by blast
  have 4: "\<forall>g. fst (splitext (snd (path_split (filepath self)))) @ fmt_04d f @ ''.x3d''
                = fst (splitext (snd (path_split (filepath self)))) @ fmt_04d g @ ''.x3d''
              \<longrightarrow> f = g"
    using fmt_04d_inj by auto
  from 1 2 3 4 show ?thesis by (intro conjI)
qed

theorem file_name_generation_witness:
  \<open>(\<exists>w'. (output_frame quiet_host walk_operator (fresh_world 0 12) 5 0 = Inr w'
            \<or> (\<exists>e. output_frame quiet_host walk_operator (fresh_world 0 12) 5 0 = Inl (e, w')))
           \<and> kanim_written w' = kanim_written (fresh_world 0 12) @
                [''  <frame file_name="''
                   @ fst (splitext (snd (path_split (filepath walk_operator)))) @ fmt_04d 5 @ ''.x3d''
                   @ ''" time="'' @ time_attr (5 - 0) @ ''" />\<newline>''])
   \<and> length (fmt_04d 5) = 4
   \<and> fmt_04d 20000 = digits (nat 20000) \<and> 4 < length (fmt_04d 20000)\<close>
proof -
  have r: "\<bar>5 - 0 :: int\<bar> < 2 ^ 53" "\<bar>20000 - 0 :: int\<bar> < 2 ^ 53" by simp_all
  have h5: "(0::int) \<le> 5 \<and> (5::int) \<le> 9999" and h2: "(10000::int) \<le> 20000" by simp_all
  note i5 = file_name_generation [OF r(1), of quiet_host walk_operator "fresh_world 0 12"]
  note i2 = file_name_generation [OF r(2), of quiet_host walk_operator "fresh_world 0 12"]
  from i5 have a: \<open>\<exists>w'. (output_frame quiet_host walk_operator (fresh_world 0 12) 5 0 = Inr w'
            \<or> (\<exists>e. output_frame quiet_host walk_operator (fresh_world 0 12) 5 0 = Inl (e, w')))
           \<and> kanim_written w' = kanim_written (fresh_world 0 12) @
                [''  <frame file_name="''
                   @ fst (splitext (snd (path_split (filepath walk_operator)))) @ fmt_04d 5 @ ''.x3d''
                   @ ''" time="'' @ time_attr (5 - 0) @ ''" />\<newline>'']\<close>
    by blast
  from i5 have "(0::int) \<le> 5 \<and> (5::int) \<le> 9999 \<longrightarrow> length (fmt_04d 5) = 4"
    by (elim conjE)
  with h5 have b: "length (fmt_04d 5) = 4" by (rule rev_mp)
  from i2 have "(10000::int) \<le> 20000 \<longrightarrow> fmt_04d 20000 = digits (nat 20000) \<and> 4 < length (fmt_04d 20000)"
    by (elim conjE)
  with h2 have c: "fmt_04d 20000 = digits (nat 20000) \<and> 4 < length (fmt_04d 20000)" by (rule rev_mp)
  from a b c show ?thesis by (intro conjI) (erule conjunct1 conjunct2 | assumption)+
qed

end
